theory Spec2Isabelle
  imports Main "HOL-Library.AList" "HOL-Library.Sublist"
begin

section \<open>Query builder (client/server/graphql.py)\<close>

subsection \<open>Python strings: split and join on the dot\<close>

text \<open>
  \<^verbatim>\<open>field.split(".")\<close>: the segments between dots; the result is never empty, and an
  empty string gives one empty segment.
\<close>

fun split_dot :: "string \<Rightarrow> string list" where
  "split_dot [] = [[]]"
| "split_dot (c # cs) =
     (if c = CHR ''.'' then [] # split_dot cs
      else (case split_dot cs of [] \<Rightarrow> [[c]] | w # ws \<Rightarrow> (c # w) # ws))"

text \<open>\<^verbatim>\<open>sep.join(parts)\<close>.\<close>

fun str_join :: "string \<Rightarrow> string list \<Rightarrow> string" where
  "str_join sep [] = []"
| "str_join sep [w] = w"
| "str_join sep (w # v # ws) = w @ sep @ str_join sep (v # ws)"

definition join_dot :: "string list \<Rightarrow> string" where
  "join_dot parts = str_join ''.'' parts"

subsection \<open>fields_to_dict\<close>

text \<open>
  The nested mapping built by \<^verbatim>\<open>fields_to_dict\<close>: a value is either the sentinel object
  \<^verbatim>\<open>ALL_SUBFIELDS\<close> or a dict from a path segment to a value. A Python dict keeps its keys
  in insertion order, so a dict is an association list; \<^verbatim>\<open>d[k] = v\<close> replaces the value of
  a present key in place and appends an absent key (\<^const>\<open>AList.update\<close>), and
  \<^verbatim>\<open>d[k]\<close> reads the entry of the key (\<^const>\<open>map_of\<close>).
\<close>

datatype trie = ALL_SUBFIELDS | Dict "(string \<times> trie) list"

text \<open>
  The body of the outer loop for one field, after \<^verbatim>\<open>hierarchy = field.split(".")\<close> and
  \<^verbatim>\<open>last = hierarchy.pop(-1)\<close> (\<open>lst\<close> below). The third argument is the object \<^verbatim>\<open>value\<close> points to; the
  result is that object after the in-place updates of the walk. The walk stops at the
  sentinel (\<^verbatim>\<open>break\<close>), creates a missing dict (\<^verbatim>\<open>value[part] = {}\<close>), descends, and
  at the end sets \<^verbatim>\<open>value[last] = ALL_SUBFIELDS\<close> unless it stands on the sentinel.
\<close>

fun add_path :: "string list \<Rightarrow> string \<Rightarrow> trie \<Rightarrow> trie" where
  "add_path hierarchy lst ALL_SUBFIELDS = ALL_SUBFIELDS"
| "add_path [] lst (Dict d) = Dict (AList.update lst ALL_SUBFIELDS d)"
| "add_path (part # hierarchy) lst (Dict d) =
     (let v = (case map_of d part of None \<Rightarrow> Dict [] | Some v \<Rightarrow> v)
      in Dict (AList.update part (add_path hierarchy lst v) d))"

definition add_field :: "trie \<Rightarrow> string \<Rightarrow> trie" where
  "add_field output field =
     (let hierarchy = split_dot field
      in add_path (butlast hierarchy) (last hierarchy) output)"

text \<open>
  \<^verbatim>\<open>fields\<close> is any iterable of strings; the list is the order in which the loop meets
  its elements (for a Python set, any enumeration of it). \<^verbatim>\<open>if not fields: return None\<close>.
\<close>

definition fields_to_dict :: "string list \<Rightarrow> trie option" where
  "fields_to_dict fields =
     (if fields = [] then None else Some (foldl add_field (Dict []) fields))"

text \<open>
  Flattening a trie back into dotted paths, as the specification's round trip reads it:
  one path for every \<^verbatim>\<open>ALL_SUBFIELDS\<close> entry, its segments from the root joined with dots.
\<close>

fun leaf_paths :: "trie \<Rightarrow> string list list" where
  "leaf_paths ALL_SUBFIELDS = [[]]"
| "leaf_paths (Dict d) = concat (map (\<lambda>kv. map ((#) (fst kv)) (leaf_paths (snd kv))) d)"

definition flatten :: "trie \<Rightarrow> string set" where
  "flatten t = set (map join_dot (leaf_paths t))"

text \<open>
  The result of \<^verbatim>\<open>fields_to_dict\<close> flattened: \<^verbatim>\<open>None\<close>, returned for no fields, holds no
  path.
\<close>

definition flatten_result :: "trie option \<Rightarrow> string set" where
  "flatten_result r = (case r of None \<Rightarrow> {} | Some t \<Rightarrow> flatten t)"

text \<open>
  The paths of a field list that survive as leaves: those with no proper prefix (segment
  by segment) among the fields.
\<close>

definition leaf_path_set :: "string list \<Rightarrow> string set" where
  "leaf_path_set fields =
     {p \<in> set fields. \<not> (\<exists>q \<in> set fields. strict_prefix (split_dot q) (split_dot p))}"

text \<open>
  Two predicates on tries used to reason about \<^const>\<open>add_path\<close>: \<open>is_leaf t p\<close> follows
  the segments of \<open>p\<close> from \<open>t\<close> by dict lookup and ends on the sentinel; \<open>wf_trie\<close> says
  that no dict lists a key twice.
\<close>

fun is_leaf :: "trie \<Rightarrow> string list \<Rightarrow> bool" where
  "is_leaf ALL_SUBFIELDS p = (p = [])"
| "is_leaf (Dict d) [] = False"
| "is_leaf (Dict d) (k # r) = (case map_of d k of None \<Rightarrow> False | Some v \<Rightarrow> is_leaf v r)"

fun wf_trie :: "trie \<Rightarrow> bool" where
  "wf_trie ALL_SUBFIELDS = True"
| "wf_trie (Dict d) = (distinct (map fst d) \<and> (\<forall>kv \<in> set d. wf_trie (snd kv)))"

definition minimal_paths :: "string list set \<Rightarrow> string list set" where
  "minimal_paths S = {p \<in> S. \<not> (\<exists>q \<in> S. strict_prefix q p)}"

subsection \<open>Values and errors\<close>

text \<open>
  The Python values that the modelled functions read from a record, bind to a query
  variable or put into a filter: \<^verbatim>\<open>None\<close>, booleans, integers and strings. The nested
  values of a record (lists, dicts) are never read by the modelled functions and are
  left out.
\<close>

datatype pyval = PNone | PBool bool | PInt int | PStr string

datatype error =
    ValueError string
  | TypeError string
  | KeyError string
  | IndexError string

text \<open>The first exception of a sequence of computations, as a loop raising it would.\<close>

fun sequence_err :: "(error + 'a) list \<Rightarrow> error + 'a list" where
  "sequence_err [] = Inr []"
| "sequence_err (Inl e # rs) = Inl e"
| "sequence_err (Inr x # rs) =
     (case sequence_err rs of Inl e \<Rightarrow> Inl e | Inr xs \<Rightarrow> Inr (x # xs))"

definition newline :: string where
  "newline = [CHR 0x0A]"

definition dquote :: string where
  "dquote = [CHR 0x22]"

definition squote :: string where
  "squote = [CHR 0x27]"

subsection \<open>value_type_to_string\<close>

text \<open>
  What a caller passes as the type of a variable: the type object \<^verbatim>\<open>str\<close>, another
  type object (by name), or a string value such as \<^verbatim>\<open>"String!"\<close>.
  \<^verbatim>\<open>six.string_types\<close> is the tuple \<^verbatim>\<open>(str,)\<close> on Python 3; membership compares the
  object passed with the type object \<^verbatim>\<open>str\<close>.
\<close>

datatype value_type = Type_str | Type_other string | Str_value string

definition six_string_types :: "value_type list" where
  "six_string_types = [Type_str]"

fun str_of_value_type :: "value_type \<Rightarrow> string" where
  "str_of_value_type Type_str = ''<class '' @ squote @ ''str'' @ squote @ ''>''"
| "str_of_value_type (Type_other n) = ''<class '' @ squote @ n @ squote @ ''>''"
| "str_of_value_type (Str_value s) = s"

definition value_type_to_string :: "value_type \<Rightarrow> error + string" where
  "value_type_to_string value_type =
     (if value_type \<in> set six_string_types then Inr ''String''
      else Inl (TypeError (''Unknown conversion for '' @ str_of_value_type value_type)))"

subsection \<open>GraphQlQueryItem\<close>

text \<open>
  The value of a filter: a string (a \<^verbatim>\<open>QueryVariable\<close> is stored as its name
  \<^verbatim>\<open>"$key"\<close> by \<^verbatim>\<open>filter\<close>), a non-string iterable with the text of each item, or a
  value that is neither (\<^verbatim>\<open>iter(value)\<close> raises TypeError) with its text.
\<close>

datatype filter_value =
    Filter_str string
  | Filter_iterable "string list"
  | Filter_scalar string

text \<open>
  A field node: \<^verbatim>\<open>_name\<close>, \<^verbatim>\<open>_has_edges\<close>, \<^verbatim>\<open>_filters\<close> (a dict, in insertion order) and
  \<^verbatim>\<open>_children\<close>. The parent reference is the position in the tree.
\<close>

datatype GraphQlQueryItem =
  GraphQlQueryItem
    (item_name: string)
    (item_has_edges: bool)
    (item_filters: "(string \<times> filter_value) list")
    (item_children: "GraphQlQueryItem list")

definition QueryVariable_name :: "string \<Rightarrow> string" where
  "QueryVariable_name variable_name = ''$'' @ variable_name"

definition new_item :: "string \<Rightarrow> bool \<Rightarrow> GraphQlQueryItem" where
  "new_item name has_edges = GraphQlQueryItem name has_edges [] []"

definition item_filter :: "string \<Rightarrow> filter_value \<Rightarrow> GraphQlQueryItem \<Rightarrow> GraphQlQueryItem" where
  "item_filter key v item =
     GraphQlQueryItem (item_name item) (item_has_edges item)
       (AList.update key v (item_filters item)) (item_children item)"

definition item_add_obj_field :: "GraphQlQueryItem \<Rightarrow> GraphQlQueryItem \<Rightarrow> GraphQlQueryItem" where
  "item_add_obj_field field item =
     GraphQlQueryItem (item_name item) (item_has_edges item)
       (item_filters item) (item_children item @ [field])"

text \<open>\<^verbatim>\<open>_filters_to_string\<close>: the text of one filter, then of all of them.\<close>

fun single_filter :: "string \<Rightarrow> filter_value \<Rightarrow> string" where
  "single_filter key (Filter_str s) = key @ '': '' @ s"
| "single_filter key (Filter_iterable items) =
     ''['' @ str_join '', '' (map (\<lambda>item. dquote @ item @ dquote) items) @ '']''"
| "single_filter key (Filter_scalar s) = key @ '': '' @ s"

definition filters_to_string :: "(string \<times> filter_value) list \<Rightarrow> string" where
  "filters_to_string filters =
     (if filters = [] then []
      else ''('' @ str_join '', '' (map (\<lambda>kv. single_filter (fst kv) (snd kv)) filters) @ '')'')"

text \<open>
  \<^verbatim>\<open>GraphQlQueryItem.calculate_query\<close>. \<open>indent\<close> is the property \<^verbatim>\<open>self.indent\<close>, which
  the source reads from the parent: the parent's \<^verbatim>\<open>child_indent\<close> plus \<^verbatim>\<open>offset\<close> (2);
  \<^verbatim>\<open>child_indent\<close> of a node is its indent, plus \<^verbatim>\<open>offset * 2\<close> when it has edges.
\<close>

fun item_calculate_query :: "nat \<Rightarrow> GraphQlQueryItem \<Rightarrow> error + string" where
  "item_calculate_query indent (GraphQlQueryItem name has_edges filters children) =
     (let offset = replicate indent (CHR '' '');
          header = offset @ name @ filters_to_string filters
      in if children = [] then
           (if has_edges
            then Inl (ValueError ''Edged item don't have specified child fields'')
            else Inr header)
         else
           (let edges_offset = offset @ replicate 2 (CHR '' '');
                node_offset = edges_offset @ replicate 2 (CHR '' '');
                child_indent = indent + (if has_edges then 2 * 2 else 0)
            in case sequence_err (map (item_calculate_query (child_indent + 2)) children) of
                 Inl e \<Rightarrow> Inl e
               | Inr rendered \<Rightarrow>
                   Inr (str_join newline
                     ([header @ '' {'']
                      @ (if has_edges
                         then [edges_offset @ ''edges {'', node_offset @ ''node {'']
                         else [])
                      @ rendered
                      @ (if has_edges then [node_offset @ ''}'', edges_offset @ ''}''] else [])
                      @ [offset @ ''}'']))))"

text \<open>A node and all nodes below it.\<close>

fun all_items :: "GraphQlQueryItem \<Rightarrow> GraphQlQueryItem list" where
  "all_items (GraphQlQueryItem name has_edges filters children) =
     GraphQlQueryItem name has_edges filters children # concat (map all_items children)"

subsection \<open>GraphQlQuery\<close>

text \<open>
  \<^verbatim>\<open>_variables\<close> maps a key to the declared type and the value (the \<^verbatim>\<open>QueryVariable\<close>
  of a key is determined by the key).
\<close>

record GraphQlQuery =
  name :: string
  variables :: "(string \<times> value_type \<times> pyval) list"
  children :: "GraphQlQueryItem list"

definition new_query :: "string \<Rightarrow> GraphQlQuery" where
  "new_query n = \<lparr>name = n, variables = [], children = []\<rparr>"

definition add_variable :: "string \<Rightarrow> value_type \<Rightarrow> pyval \<Rightarrow> GraphQlQuery \<Rightarrow> GraphQlQuery" where
  "add_variable key vt v query =
     query\<lparr>variables := AList.update key (vt, v) (variables query)\<rparr>"

definition add_obj_field :: "GraphQlQueryItem \<Rightarrow> GraphQlQuery \<Rightarrow> GraphQlQuery" where
  "add_obj_field field query = query\<lparr>children := children query @ [field]\<rparr>"

definition variable_to_string :: "string \<times> value_type \<times> pyval \<Rightarrow> error + string" where
  "variable_to_string kv =
     (case value_type_to_string (fst (snd kv)) of
        Inl e \<Rightarrow> Inl e
      | Inr t \<Rightarrow> Inr (QueryVariable_name (fst kv) @ '': '' @ t @ ''!''))"

definition calculate_query :: "GraphQlQuery \<Rightarrow> error + string" where
  "calculate_query query =
     (if children query = [] then Inl (ValueError ''Missing fields to query'')
      else
        (case sequence_err (map variable_to_string (variables query)) of
           Inl e \<Rightarrow> Inl e
         | Inr vars \<Rightarrow>
             (let variables_str = (if vars = [] then [] else ''('' @ str_join '','' vars @ '')'');
                  header = ''query '' @ name query @ variables_str
              in case sequence_err (map (item_calculate_query 2) (children query)) of
                   Inl e \<Rightarrow> Inl e
                 | Inr rendered \<Rightarrow>
                     Inr (str_join newline ([header @ '' {''] @ rendered @ [''}''])))))"

text \<open>
  A query with a child field whose variable is declared with the string \<^verbatim>\<open>"String!"\<close>
  in place of the type \<^verbatim>\<open>str\<close>, built with \<^verbatim>\<open>add_variable\<close>, \<^verbatim>\<open>add_field\<close> and
  \<^verbatim>\<open>filter\<close>.
\<close>

definition string_typed_query :: GraphQlQuery where
  "string_typed_query =
     (let query = new_query ''ProjectQuery'';
          query = add_variable ''projectName'' (Str_value ''String!'') (PStr ''proj'') query;
          project_query =
            item_add_obj_field (new_item ''name'' False)
              (item_filter ''name'' (Filter_str (QueryVariable_name ''projectName''))
                 (new_item ''project'' False))
      in add_obj_field project_query query)"

text \<open>
  A query that renders: one variable declared with the type \<^verbatim>\<open>str\<close>, and a field with
  edges that has a child.
\<close>

definition example_query :: GraphQlQuery where
  "example_query =
     \<lparr>name = ''Q'', variables = [(''projectName'', Type_str, PNone)],
      children = [GraphQlQueryItem ''project'' False
         [(''name'', Filter_str ''$projectName'')]
         [GraphQlQueryItem ''folders'' True [] [new_item ''id'' False]]]\<rparr>"

section \<open>Entity queries (client/server/entities.py)\<close>

subsection \<open>Records, bound queries and the connection\<close>

text \<open>A decoded record of the server: a dict from field names to values.\<close>

type_synonym entity = "(string \<times> pyval) list"

text \<open>\<^verbatim>\<open>record[key]\<close> raises KeyError for a missing key.\<close>

definition getitem :: "entity \<Rightarrow> string \<Rightarrow> error + pyval" where
  "getitem record key =
     (case map_of record key of None \<Rightarrow> Inl (KeyError key) | Some v \<Rightarrow> Inr v)"

text \<open>
  Python's \<^verbatim>\<open>==\<close> on these values: a boolean equals the integer 0 or 1, otherwise the
  values are equal when they are the same.
\<close>

fun int_of_pyval :: "pyval \<Rightarrow> int option" where
  "int_of_pyval (PInt n) = Some n"
| "int_of_pyval (PBool b) = Some (if b then 1 else 0)"
| "int_of_pyval v = None"

definition py_eq :: "pyval \<Rightarrow> pyval \<Rightarrow> bool" where
  "py_eq a b =
     (case (int_of_pyval a, int_of_pyval b) of
        (Some m, Some n) \<Rightarrow> m = n
      | _ \<Rightarrow> a = b)"

text \<open>\<^verbatim>\<open>value < 0\<close> and \<^verbatim>\<open>abs(value)\<close> (Python 3: TypeError for None and strings).\<close>

definition py_lt_zero :: "pyval \<Rightarrow> error + bool" where
  "py_lt_zero v =
     (case int_of_pyval v of
        Some n \<Rightarrow> Inr (n < 0)
      | None \<Rightarrow> Inl (TypeError ''< not supported''))"

definition py_abs :: "pyval \<Rightarrow> error + pyval" where
  "py_abs v =
     (case int_of_pyval v of
        Some n \<Rightarrow> Inr (PInt (abs n))
      | None \<Rightarrow> Inl (TypeError ''bad operand type for abs()''))"

text \<open>
  The value bound to a query variable by \<^verbatim>\<open>set_variable_value\<close>: the project name, the
  list made of a set of ids, names or numbers (\<^verbatim>\<open>list(folder_ids)\<close>; the order of a list
  made of a Python set is unspecified, so the model keeps the set), or \<^verbatim>\<open>True\<close>.
\<close>

datatype variable_value = Value_str string | Value_list "pyval set" | Value_bool bool

text \<open>
  Modelled from the spec: the query builders of client/server/graphql_queries.py
  (\<^verbatim>\<open>folders_graphql_query\<close>, \<^verbatim>\<open>tasks_graphql_query\<close>, \<^verbatim>\<open>folders_tasks_graphql_query\<close>,
  \<^verbatim>\<open>versions_graphql_query\<close>, \<^verbatim>\<open>representations_graphql_query\<close>), which build a query
  for a field set and declare its variables. The model keeps of a built query which
  builder made it, the fields it was made with and the variable values bound to it.
\<close>

datatype query_kind =
  Folders | Tasks | FoldersTasks | Versions | Representations

record bound_query =
  kind :: query_kind
  query_fields :: "string set"
  variable_values :: "string \<rightharpoonup> variable_value"

definition graphql_query :: "query_kind \<Rightarrow> string set \<Rightarrow> bound_query" where
  "graphql_query k fs = \<lparr>kind = k, query_fields = fs, variable_values = Map.empty\<rparr>"

text \<open>
  \<^verbatim>\<open>for attr, filter_value in filters.items(): query.set_variable_value(attr, filter_value)\<close>
\<close>

definition set_variable_values :: "(string \<rightharpoonup> variable_value) \<Rightarrow> bound_query \<Rightarrow> bound_query" where
  "set_variable_values filters query =
     query\<lparr>variable_values := variable_values query ++ filters\<rparr>"

text \<open>
  Modelled from the spec: the connection and the executor methods \<^verbatim>\<open>query\<close> and
  \<^verbatim>\<open>continuous_query\<close> of a built query (specification, 4.2 and 6). A connection
  answers a query with the records of the entity kind asked for: for \<^verbatim>\<open>query\<close>, the
  list that \<^verbatim>\<open>parsed_data.get("project", {}).get(kind, [])\<close> extracts from the answer;
  for \<^verbatim>\<open>continuous_query\<close>, one such list per page, in the server's order. Every
  query given to the connection is logged in \<open>calls\<close>, so a function that leaves
  \<open>calls\<close> as it was has made no network call.
\<close>

record connection =
  query_response :: "bound_query \<Rightarrow> entity list"
  continuous_response :: "bound_query \<Rightarrow> entity list list"
  calls :: "bound_query list"

definition run_query :: "bound_query \<Rightarrow> connection \<Rightarrow> entity list \<times> connection" where
  "run_query query con = (query_response con query, con\<lparr>calls := calls con @ [query]\<rparr>)"

definition run_continuous_query ::
  "bound_query \<Rightarrow> connection \<Rightarrow> entity list list \<times> connection" where
  "run_continuous_query query con =
     (continuous_response con query, con\<lparr>calls := calls con @ [query]\<rparr>)"

text \<open>A list comprehension whose condition may raise.\<close>

fun filter_err :: "('a \<Rightarrow> error + bool) \<Rightarrow> 'a list \<Rightarrow> error + 'a list" where
  "filter_err p [] = Inr []"
| "filter_err p (x # xs) =
     (case p x of
        Inl e \<Rightarrow> Inl e
      | Inr b \<Rightarrow>
          (case filter_err p xs of
             Inl e \<Rightarrow> Inl e
           | Inr ys \<Rightarrow> Inr (if b then x # ys else ys)))"

text \<open>\<^verbatim>\<open>record["active"] is active\<close>, for a boolean \<open>active\<close>.\<close>

definition active_is :: "bool \<Rightarrow> entity \<Rightarrow> error + bool" where
  "active_is active record =
     (case getitem record ''active'' of
        Inl e \<Rightarrow> Inl e
      | Inr v \<Rightarrow> Inr (v = PBool active))"

text \<open>
  The arguments of the query functions: a filter is \<^verbatim>\<open>None\<close> or an iterable, which each
  function first turns into a set (\<^verbatim>\<open>set(folder_ids)\<close>), so the model takes the set of
  its elements; \<open>Some {}\<close> is the empty iterable. \<open>field_names\<close> is the argument
  \<^verbatim>\<open>fields\<close>: \<^verbatim>\<open>None\<close> or an iterable of names, tested for emptiness and turned into a set. The default field sets of
  client/server/constants.py are parameters. \<open>con\<close> is the connection in use (the
  caller's, or the default one).
\<close>

definition parent_ids_to_root :: "string \<Rightarrow> pyval set \<Rightarrow> pyval set" where
  "parent_ids_to_root project_name parent_ids =
     (let parent_ids =
            (if PNone \<in> parent_ids
             then insert (PStr ''root'') (parent_ids - {PNone})
             else parent_ids);
          parent_ids =
            (if PStr project_name \<in> parent_ids
             then insert (PStr ''root'') (parent_ids - {PStr project_name})
             else parent_ids)
      in parent_ids)"

text \<open>
  The filters of \<^verbatim>\<open>get_v4_folders\<close> and \<^verbatim>\<open>get_v4_folders_tasks\<close> (the same lines in both):
  \<open>None\<close> when an empty filter ends the function with \<^verbatim>\<open>return []\<close>.
\<close>

definition folder_filters ::
  "string \<Rightarrow> pyval set option \<Rightarrow> pyval set option \<Rightarrow> pyval set option \<Rightarrow> pyval set option
     \<Rightarrow> (string \<rightharpoonup> variable_value) option" where
  "folder_filters project_name folder_ids folder_paths folder_names parent_ids =
     (let filters = [''projectName'' \<mapsto> Value_str project_name]
      in if folder_ids = Some {} then None
      else let filters = (case folder_ids of None \<Rightarrow> filters
                 | Some ids \<Rightarrow> filters(''folderIds'' \<mapsto> Value_list ids))
      in if folder_paths = Some {} then None
      else let filters = (case folder_paths of None \<Rightarrow> filters
                 | Some paths \<Rightarrow> filters(''folderPaths'' \<mapsto> Value_list paths))
      in if folder_names = Some {} then None
      else let filters = (case folder_names of None \<Rightarrow> filters
                 | Some names \<Rightarrow> filters(''folderNames'' \<mapsto> Value_list names))
      in if parent_ids = Some {} then None
      else let filters = (case parent_ids of None \<Rightarrow> filters
                 | Some ids \<Rightarrow>
                     filters(''parentFolderIds'' \<mapsto>
                       Value_list (parent_ids_to_root project_name ids)))
      in Some filters)"

definition select_fields :: "string set \<Rightarrow> string set option \<Rightarrow> bool option \<Rightarrow> string set" where
  "select_fields default_fields field_names active =
     (let field_names = (if field_names = None \<or> field_names = Some {} then default_fields else the field_names)
      in if active \<noteq> None then insert ''active'' field_names else field_names)"

subsection \<open>get_v4_folders, get_v4_tasks, get_v4_folders_tasks\<close>

text \<open>
  \<^verbatim>\<open>get_v4_folders\<close> is a generator; the model is the generator run to its end: the
  records it yields, or the exception that ends it, and the connection afterwards.
\<close>

definition get_v4_folders ::
  "string set \<Rightarrow> string \<Rightarrow> pyval set option \<Rightarrow> pyval set option \<Rightarrow> pyval set option
     \<Rightarrow> pyval set option \<Rightarrow> bool option \<Rightarrow> string set option \<Rightarrow> connection
     \<Rightarrow> (error + entity list) \<times> connection" where
  "get_v4_folders DEFAULT_FOLDER_FIELDS project_name folder_ids folder_paths folder_names
       parent_ids active field_names con =
     (if project_name = [] then (Inr [], con)
      else case folder_filters project_name folder_ids folder_paths folder_names parent_ids of
        None \<Rightarrow> (Inr [], con)
      | Some filters \<Rightarrow>
          (let field_names = select_fields DEFAULT_FOLDER_FIELDS field_names active;
               query = set_variable_values filters (graphql_query Folders field_names);
               (pages, con) = run_continuous_query query con
           in (filter_err
                 (\<lambda>folder. if active = None then Inr True else active_is (the active) folder)
                 (concat pages),
               con)))"

definition get_v4_tasks ::
  "string set \<Rightarrow> string \<Rightarrow> pyval set option \<Rightarrow> pyval set option \<Rightarrow> pyval set option
     \<Rightarrow> pyval set option \<Rightarrow> bool option \<Rightarrow> string set option \<Rightarrow> connection
     \<Rightarrow> (error + entity list) \<times> connection" where
  "get_v4_tasks DEFAULT_FOLDER_FIELDS project_name task_ids task_names task_types
       folder_ids active field_names con =
     (if project_name = [] then (Inr [], con)
      else let filters = [''projectName'' \<mapsto> Value_str project_name]
      in if task_ids = Some {} then (Inr [], con)
      else let filters = (case task_ids of None \<Rightarrow> filters
                 | Some ids \<Rightarrow> filters(''taskIds'' \<mapsto> Value_list ids))
      in if task_names = Some {} then (Inr [], con)
      else let filters = (case task_names of None \<Rightarrow> filters
                 | Some names \<Rightarrow> filters(''taskNames'' \<mapsto> Value_list names))
      in if task_types = Some {} then (Inr [], con)
      else let filters = (case task_types of None \<Rightarrow> filters
                 | Some types \<Rightarrow> filters(''taskTypes'' \<mapsto> Value_list types))
      in if folder_ids = Some {} then (Inr [], con)
      else let filters = (case folder_ids of None \<Rightarrow> filters
                 | Some ids \<Rightarrow> filters(''folderIds'' \<mapsto> Value_list ids));
               field_names = select_fields DEFAULT_FOLDER_FIELDS field_names active;
               query = set_variable_values filters (graphql_query Tasks field_names);
               (tasks, con) = run_query query con
           in if active = None then (Inr tasks, con)
              else (filter_err (active_is (the active)) tasks, con))"

definition get_v4_folders_tasks ::
  "string set \<Rightarrow> string \<Rightarrow> pyval set option \<Rightarrow> pyval set option \<Rightarrow> pyval set option
     \<Rightarrow> pyval set option \<Rightarrow> bool option \<Rightarrow> string set option \<Rightarrow> connection
     \<Rightarrow> (error + entity list) \<times> connection" where
  "get_v4_folders_tasks DEFAULT_V3_FOLDER_FIELDS project_name folder_ids folder_paths
       folder_names parent_ids active field_names con =
     (if project_name = [] then (Inr [], con)
      else case folder_filters project_name folder_ids folder_paths folder_names parent_ids of
        None \<Rightarrow> (Inr [], con)
      | Some filters \<Rightarrow>
          (let field_names = select_fields DEFAULT_V3_FOLDER_FIELDS field_names active;
               query = set_variable_values filters (graphql_query FoldersTasks field_names);
               (folders, con) = run_query query con
           in if active = None then (Inr folders, con)
              else (filter_err (active_is (the active)) folders, con)))"

subsection \<open>get_v4_versions\<close>

text \<open>
  \<open>hero\<close> and \<open>standard\<close> are booleans; \<open>latest\<close> is \<^verbatim>\<open>None\<close> or a boolean and is tested
  for truth.
\<close>

definition get_v4_versions ::
  "string set \<Rightarrow> string \<Rightarrow> pyval set option \<Rightarrow> pyval set option \<Rightarrow> pyval set option
     \<Rightarrow> bool \<Rightarrow> bool \<Rightarrow> bool option \<Rightarrow> string set option \<Rightarrow> connection
     \<Rightarrow> entity list \<times> connection" where
  "get_v4_versions DEFAULT_VERSION_FIELDS project_name version_ids subset_ids versions
       hero standard latest field_names con =
     (let field_names = select_fields DEFAULT_VERSION_FIELDS field_names None;
          filters = [''projectName'' \<mapsto> Value_str project_name]
      in if version_ids = Some {} then ([], con)
      else let filters = (case version_ids of None \<Rightarrow> filters
                 | Some ids \<Rightarrow> filters(''versionIds'' \<mapsto> Value_list ids))
      in if subset_ids = Some {} then ([], con)
      else let filters = (case subset_ids of None \<Rightarrow> filters
                 | Some ids \<Rightarrow> filters(''subsetIds'' \<mapsto> Value_list ids))
      in if versions = Some {} then ([], con)
      else let filters = (case versions of None \<Rightarrow> filters
                 | Some nums \<Rightarrow> filters(''versions'' \<mapsto> Value_list nums))
      in if \<not> hero \<and> \<not> standard then ([], con)
      else let filters =
                 (if hero \<and> \<not> standard then filters(''heroOnly'' \<mapsto> Value_bool True)
                  else if hero \<and> latest = Some True
                    then filters(''heroOrLatestOnly'' \<mapsto> Value_bool True)
                  else if latest = Some True then filters(''latestOnly'' \<mapsto> Value_bool True)
                  else filters);
               field_names = field_names \<union> {''id'', ''version''};
               query = set_variable_values filters (graphql_query Versions field_names)
           in run_query query con)"

subsection \<open>get_v4_representations\<close>

text \<open>
  \<open>names_by_version_ids\<close> is \<^verbatim>\<open>None\<close> or a dict from a version id to an iterable of
  names. The last lines are those of the source: the list comprehension runs when
  \<open>active\<close> is \<^verbatim>\<open>None\<close> and keeps the records whose \<^verbatim>\<open>"active"\<close> equals \<open>active\<close>.
\<close>

definition pyval_of_active :: "bool option \<Rightarrow> pyval" where
  "pyval_of_active active = (case active of None \<Rightarrow> PNone | Some b \<Rightarrow> PBool b)"

definition active_eq :: "bool option \<Rightarrow> entity \<Rightarrow> error + bool" where
  "active_eq active repre =
     (case getitem repre ''active'' of
        Inl e \<Rightarrow> Inl e
      | Inr v \<Rightarrow> Inr (py_eq v (pyval_of_active active)))"

definition get_v4_representations ::
  "string set \<Rightarrow> string \<Rightarrow> pyval set option \<Rightarrow> pyval set option \<Rightarrow> pyval set option
     \<Rightarrow> (pyval \<times> pyval set) list option \<Rightarrow> bool option \<Rightarrow> string set option \<Rightarrow> connection
     \<Rightarrow> (error + entity list) \<times> connection" where
  "get_v4_representations DEFAULT_REPRESENTATION_FIELDS project_name representation_ids
       representation_names version_ids names_by_version_ids active field_names con =
     (let field_names = select_fields DEFAULT_REPRESENTATION_FIELDS field_names active;
          filters = [''projectName'' \<mapsto> Value_str project_name]
      in if representation_ids = Some {} then (Inr [], con)
      else let filters = (case representation_ids of None \<Rightarrow> filters
                 | Some ids \<Rightarrow> filters(''representationIds'' \<mapsto> Value_list ids));
               version_ids_filter =
                 (case names_by_version_ids of
                    Some by_ids \<Rightarrow> Some (fst ` set by_ids)
                  | None \<Rightarrow> version_ids);
               representaion_names_filter =
                 (case names_by_version_ids of
                    Some by_ids \<Rightarrow> Some (\<Union> (snd ` set by_ids))
                  | None \<Rightarrow> representation_names)
      in if (case names_by_version_ids of
               Some by_ids \<Rightarrow> version_ids_filter = Some {} \<or> representaion_names_filter = Some {}
             | None \<Rightarrow> representaion_names_filter = Some {} \<or> version_ids_filter = Some {})
         then (Inr [], con)
      else let filters = (case version_ids_filter of None \<Rightarrow> filters
                 | Some ids \<Rightarrow>
                     if ids = {} then filters else filters(''versionIds'' \<mapsto> Value_list ids));
               filters = (case representaion_names_filter of None \<Rightarrow> filters
                 | Some names \<Rightarrow>
                     if names = {} then filters
                     else filters(''representationNames'' \<mapsto> Value_list names));
               query = set_variable_values filters (graphql_query Representations field_names);
               (representations, con) = run_query query con
           in if active = None
              then (filter_err (active_eq active) representations, con)
              else (Inr representations, con))"

subsection \<open>_get_versions and get_last_version_by_subset_id\<close>

text \<open>
  The field conversion \<^verbatim>\<open>version_fields_v3_to_v4\<close> and the record conversion
  \<^verbatim>\<open>convert_v4_version_to_v3\<close> (client/server/conversion_utils.py) are parameters.
\<close>

text \<open>The first loop: hero versions apart, the others converted.\<close>

fun split_versions ::
  "(entity \<Rightarrow> entity) \<Rightarrow> entity list \<Rightarrow> error + (entity list \<times> entity list)" where
  "split_versions convert_v4_version_to_v3 [] = Inr ([], [])"
| "split_versions convert_v4_version_to_v3 (version # queried) =
     (case getitem version ''version'' of
        Inl e \<Rightarrow> Inl e
      | Inr num \<Rightarrow>
          (case py_lt_zero num of
             Inl e \<Rightarrow> Inl e
           | Inr is_hero \<Rightarrow>
               (case split_versions convert_v4_version_to_v3 queried of
                  Inl e \<Rightarrow> Inl e
                | Inr (versions, hero_versions) \<Rightarrow>
                    if is_hero then Inr (versions, version # hero_versions)
                    else Inr (convert_v4_version_to_v3 version # versions, hero_versions))))"

text \<open>The second loop: the version numbers and the subset ids of the hero versions.\<close>

fun hero_keys :: "entity list \<Rightarrow> error + (pyval set \<times> pyval set)" where
  "hero_keys [] = Inr ({}, {})"
| "hero_keys (hero_version # hero_versions) =
     (case getitem hero_version ''version'' of
        Inl e \<Rightarrow> Inl e
      | Inr num \<Rightarrow>
          (case py_abs num of
             Inl e \<Rightarrow> Inl e
           | Inr abs_version \<Rightarrow>
               (case getitem hero_version ''subsetId'' of
                  Inl e \<Rightarrow> Inl e
                | Inr subset_id \<Rightarrow>
                    (case hero_keys hero_versions of
                       Inl e \<Rightarrow> Inl e
                     | Inr (subset_ids, versions_nums) \<Rightarrow>
                         Inr (insert subset_id subset_ids, insert abs_version versions_nums)))))"

text \<open>
  \<^verbatim>\<open>hero_eq_by_subset_id\<close>: the versions of the second query by subset id, a
  \<^verbatim>\<open>defaultdict(list)\<close> filled in the order of the query's answer.
\<close>

fun dict_append :: "pyval \<Rightarrow> entity \<Rightarrow> (pyval \<times> entity list) list \<Rightarrow> (pyval \<times> entity list) list" where
  "dict_append key version [] = [(key, [version])]"
| "dict_append key version ((k, vs) # groups) =
     (if py_eq k key then (k, vs @ [version]) # groups
      else (k, vs) # dict_append key version groups)"

fun dict_get :: "(pyval \<times> entity list) list \<Rightarrow> pyval \<Rightarrow> entity list" where
  "dict_get [] key = []"
| "dict_get ((k, vs) # groups) key = (if py_eq k key then vs else dict_get groups key)"

fun group_by_subset_id ::
  "(pyval \<times> entity list) list \<Rightarrow> entity list \<Rightarrow> error + (pyval \<times> entity list) list" where
  "group_by_subset_id groups [] = Inr groups"
| "group_by_subset_id groups (version # hero_eq_versions) =
     (case getitem version ''subsetId'' of
        Inl e \<Rightarrow> Inl e
      | Inr subset_id \<Rightarrow>
          group_by_subset_id (dict_append subset_id version groups) hero_eq_versions)"

text \<open>The inner loop: the id of the first version of the group with the number sought.\<close>

fun find_version_id :: "pyval \<Rightarrow> entity list \<Rightarrow> error + pyval" where
  "find_version_id abs_version [] = Inr PNone"
| "find_version_id abs_version (version # candidates) =
     (case getitem version ''version'' of
        Inl e \<Rightarrow> Inl e
      | Inr num \<Rightarrow>
          if py_eq num abs_version then getitem version ''id''
          else find_version_id abs_version candidates)"

text \<open>
  The body of the last loop for one hero version: the record \<^verbatim>\<open>conv_hero\<close> after
  \<^verbatim>\<open>conv_hero["version_id"] = version_id\<close>.
\<close>

definition conv_hero ::
  "(entity \<Rightarrow> entity) \<Rightarrow> (pyval \<times> entity list) list \<Rightarrow> entity \<Rightarrow> error + entity" where
  "conv_hero convert_v4_version_to_v3 hero_eq_by_subset_id hero_version =
     (case getitem hero_version ''version'' of
        Inl e \<Rightarrow> Inl e
      | Inr num \<Rightarrow>
          (case py_abs num of
             Inl e \<Rightarrow> Inl e
           | Inr abs_version \<Rightarrow>
               (case getitem hero_version ''subsetId'' of
                  Inl e \<Rightarrow> Inl e
                | Inr subset_id \<Rightarrow>
                    (case find_version_id abs_version (dict_get hero_eq_by_subset_id subset_id) of
                       Inl e \<Rightarrow> Inl e
                     | Inr version_id \<Rightarrow>
                         Inr (AList.update ''version_id'' version_id
                                (convert_v4_version_to_v3 hero_version))))))"

text \<open>
  \<^verbatim>\<open>_get_versions\<close>. The last loop computes \<^verbatim>\<open>conv_hero\<close> for every hero version and
  stores it nowhere: the function returns \<^verbatim>\<open>versions\<close>, the converted standard
  versions. An exception of the loop still ends the function.
\<close>

definition private_get_versions ::
  "(string set option \<Rightarrow> string set option) \<Rightarrow> (entity \<Rightarrow> entity) \<Rightarrow> string set
     \<Rightarrow> string \<Rightarrow> pyval set option \<Rightarrow> pyval set option \<Rightarrow> pyval set option
     \<Rightarrow> bool \<Rightarrow> bool \<Rightarrow> bool option \<Rightarrow> string set option \<Rightarrow> connection
     \<Rightarrow> (error + entity list) \<times> connection" where
  "private_get_versions version_fields_v3_to_v4 convert_v4_version_to_v3 DEFAULT_VERSION_FIELDS
       project_name version_ids subset_ids versions hero standard latest field_names con =
     (let field_names = version_fields_v3_to_v4 field_names;
          field_names = (if field_names \<noteq> None \<and> field_names \<noteq> Some {} \<and> hero
                    then Some (the field_names \<union> {''subsetId'', ''version''})
                    else field_names);
          (queried_versions, con) =
            get_v4_versions DEFAULT_VERSION_FIELDS project_name version_ids subset_ids versions
              hero standard latest field_names con
      in case split_versions convert_v4_version_to_v3 queried_versions of
           Inl e \<Rightarrow> (Inl e, con)
         | Inr (versions, hero_versions) \<Rightarrow>
             if hero_versions = [] then (Inr versions, con)
             else
               (case hero_keys hero_versions of
                  Inl e \<Rightarrow> (Inl e, con)
                | Inr (subset_ids, versions_nums) \<Rightarrow>
                    (let (hero_eq_versions, con) =
                           get_v4_versions DEFAULT_VERSION_FIELDS project_name None
                             (Some subset_ids) (Some versions_nums) False True None
                             (Some {''id'', ''version'', ''subsetId''}) con
                     in case group_by_subset_id [] hero_eq_versions of
                          Inl e \<Rightarrow> (Inl e, con)
                        | Inr hero_eq_by_subset_id \<Rightarrow>
                            (case sequence_err
                                    (map (conv_hero convert_v4_version_to_v3 hero_eq_by_subset_id)
                                       hero_versions) of
                               Inl e \<Rightarrow> (Inl e, con)
                             | Inr conv_heroes \<Rightarrow> (Inr versions, con)))))"

text \<open>
  \<^verbatim>\<open>get_last_version_by_subset_id\<close>: \<^verbatim>\<open>_get_versions\<close> with the one subset id,
  \<^verbatim>\<open>latest=True\<close> and the defaults \<^verbatim>\<open>hero=True\<close>, \<^verbatim>\<open>standard=True\<close>; then
  \<^verbatim>\<open>if not versions: return versions[0]\<close> and \<^verbatim>\<open>return None\<close>.
\<close>

definition get_last_version_by_subset_id ::
  "(string set option \<Rightarrow> string set option) \<Rightarrow> (entity \<Rightarrow> entity) \<Rightarrow> string set
     \<Rightarrow> string \<Rightarrow> pyval \<Rightarrow> string set option \<Rightarrow> connection
     \<Rightarrow> (error + entity option) \<times> connection" where
  "get_last_version_by_subset_id version_fields_v3_to_v4 convert_v4_version_to_v3
       DEFAULT_VERSION_FIELDS project_name subset_id field_names con =
     (let (versions, con) =
            private_get_versions version_fields_v3_to_v4 convert_v4_version_to_v3
              DEFAULT_VERSION_FIELDS project_name None (Some {subset_id}) None True True
              (Some True) field_names con
      in case versions of
           Inl e \<Rightarrow> (Inl e, con)
         | Inr versions \<Rightarrow>
             if versions = [] then
               (case versions of
                  [] \<Rightarrow> (Inl (IndexError ''list index out of range''), con)
                | v # vs \<Rightarrow> (Inr (Some v), con))
             else (Inr None, con))"

subsection \<open>Example records and connections\<close>

text \<open>
  A connection that answers every query with the same records and has not been called
  yet, and two representation records.
\<close>

definition fixed_connection :: "entity list \<Rightarrow> connection" where
  "fixed_connection records =
     \<lparr>query_response = (\<lambda>query. records),
      continuous_response = (\<lambda>query. [records]),
      calls = []\<rparr>"

definition repre_active :: entity where
  "repre_active = [(''id'', PStr ''r1''), (''active'', PBool True)]"

definition repre_inactive :: entity where
  "repre_inactive = [(''id'', PStr ''r2''), (''active'', PBool False)]"

text \<open>A standard version 3 and the hero version -3 of the same subset.\<close>

definition version_standard :: entity where
  "version_standard = [(''id'', PStr ''V123''), (''version'', PInt 3), (''subsetId'', PStr ''S'')]"

definition version_hero :: entity where
  "version_hero = [(''id'', PStr ''H1''), (''version'', PInt (- 3)), (''subsetId'', PStr ''S'')]"

text \<open>
  A connection that answers the query without a \<^verbatim>\<open>versions\<close> filter with the hero version
  and the secondary lookup (which binds \<^verbatim>\<open>versions\<close>) with \<open>matching\<close>.
\<close>

definition hero_connection :: "entity list \<Rightarrow> connection" where
  "hero_connection matching =
     \<lparr>query_response =
        (\<lambda>query. if variable_values query ''versions'' = None then [version_hero] else matching),
      continuous_response = (\<lambda>query. []),
      calls = []\<rparr>"

section \<open>Properties of the query builder\<close>

subsection \<open>fields_to_dict: the round trip\<close>

lemma split_dot_ne [simp]: "split_dot s \<noteq> []"
  by (induction s) (auto split: list.splits)

lemma join_split [simp]: "join_dot (split_dot s) = s"
  unfolding join_dot_def
proof (induction s)
  case Nil
  then show ?case by simp
next
  case (Cons c cs)
  show ?case
  proof (cases "split_dot cs")
    case Nil
    then show ?thesis by simp
  next
    case (Cons w ws)
    with Cons.IH show ?thesis by (cases ws) auto
  qed
qed

lemma Cons_in_leaf_paths:
  "(k # r) \<in> set (leaf_paths (Dict d)) \<longleftrightarrow> (\<exists>v. (k, v) \<in> set d \<and> r \<in> set (leaf_paths v))"
  by force

lemma Nil_notin_leaf_paths [simp]: "[] \<notin> set (leaf_paths (Dict d))"
  by auto

lemma leaf_paths_is_leaf: "wf_trie t \<Longrightarrow> p \<in> set (leaf_paths t) \<longleftrightarrow> is_leaf t p"
proof (induction t arbitrary: p)
  case ALL_SUBFIELDS
  then show ?case by auto
next
  case (Dict d)
  show ?case
  proof (cases p)
    case Nil
    then show ?thesis using Nil_notin_leaf_paths [of d] by (simp del: leaf_paths.simps)
  next
    case (Cons k r)
    have d: "distinct (map fst d)" using Dict.prems by simp
    show ?thesis
    proof (cases "map_of d k")
      case None
      then have "\<And>v. (k, v) \<notin> set d" by (metis weak_map_of_SomeI option.distinct(1))
      with None Cons show ?thesis by (simp add: Cons_in_leaf_paths del: leaf_paths.simps)
    next
      case (Some v)
      then have in_d: "(k, v) \<in> set d" by (rule map_of_SomeD)
      have uniq: "\<And>v'. (k, v') \<in> set d \<Longrightarrow> v' = v"
        using d Some by (metis map_of_is_SomeI option.inject)
      have wfv: "wf_trie v" using Dict.prems in_d by force
      have leaf_v: "is_leaf v r \<longleftrightarrow> r \<in> set (leaf_paths v)"
        using Dict.IH in_d wfv by force
      have "(k # r) \<in> set (leaf_paths (Dict d)) \<longleftrightarrow> r \<in> set (leaf_paths v)"
      proof
        assume "(k # r) \<in> set (leaf_paths (Dict d))"
        then obtain v' where "(k, v') \<in> set d" "r \<in> set (leaf_paths v')"
          unfolding Cons_in_leaf_paths by blast
        with uniq show "r \<in> set (leaf_paths v)" by blast
      next
        assume "r \<in> set (leaf_paths v)"
        with in_d show "(k # r) \<in> set (leaf_paths (Dict d))"
          unfolding Cons_in_leaf_paths by blast
      qed
      with leaf_v Some Cons show ?thesis by (simp del: leaf_paths.simps)
    qed
  qed
qed

lemma set_update_subset: "set (AList.update k v d) \<subseteq> insert (k, v) (set d)"
  by (induction d) auto

lemma wf_trie_update:
  "wf_trie (Dict d) \<Longrightarrow> wf_trie v \<Longrightarrow> wf_trie (Dict (AList.update k v d))"
  using set_update_subset [of k v d] by (auto simp add: distinct_update)

lemma wf_add_path: "wf_trie t \<Longrightarrow> wf_trie (add_path h l t)"
proof (induction h l t rule: add_path.induct)
  case (1 hierarchy lst)
  then show ?case by simp
next
  case (2 lst d)
  then show ?case using wf_trie_update [of d ALL_SUBFIELDS lst] by simp
next
  case (3 part hierarchy lst d)
  define v where "v = (case map_of d part of None \<Rightarrow> Dict [] | Some v \<Rightarrow> v)"
  have "wf_trie v"
  proof (cases "map_of d part")
    case None
    then show ?thesis by (simp add: v_def)
  next
    case (Some w)
    then have "(part, w) \<in> set d" by (rule map_of_SomeD)
    with "3.prems" Some show ?thesis by (force simp add: v_def)
  qed
  then have "wf_trie (add_path hierarchy lst v)" unfolding v_def by (rule "3.IH" [OF refl])
  then show ?case using wf_trie_update [OF "3.prems"] by (simp add: v_def)
qed

lemma is_leaf_Nil: "is_leaf t [] \<longleftrightarrow> t = ALL_SUBFIELDS"
  by (cases t) auto

lemma is_leaf_empty [simp]: "\<not> is_leaf (Dict []) r"
  by (cases r) auto

lemma prefix_single: "prefix q [l] \<longleftrightarrow> q = [] \<or> q = [l]"
  by (cases q) auto

lemma is_leaf_add_path:
  "is_leaf (add_path h l t) p \<longleftrightarrow>
     (if \<exists>q. is_leaf t q \<and> prefix q (h @ [l]) then is_leaf t p
      else p = h @ [l] \<or> (is_leaf t p \<and> \<not> prefix (h @ [l]) p))"
proof (induction h l t arbitrary: p rule: add_path.induct)
  case (1 hierarchy lst)
  then show ?case by auto
next
  case (2 lst d)
  have "(\<exists>q. is_leaf (Dict d) q \<and> prefix q ([] @ [lst])) \<longleftrightarrow> is_leaf (Dict d) [lst]"
    (is "?L \<longleftrightarrow> ?R")
  proof
    assume ?L
    then obtain q where "is_leaf (Dict d) q" "q = [] \<or> q = [lst]"
      by (auto simp add: prefix_single)
    then show ?R by auto
  next
    assume ?R
    then have "is_leaf (Dict d) [lst] \<and> prefix [lst] ([] @ [lst])" by simp
    then show ?L by blast
  qed
  then have ex: "(\<exists>q. is_leaf (Dict d) q \<and> prefix q ([] @ [lst])) \<longleftrightarrow> map_of d lst = Some ALL_SUBFIELDS"
    by (simp add: is_leaf_Nil split: option.splits)
  show ?case
  proof (cases p)
    case Nil
    then show ?thesis by simp
  next
    case (Cons k r)
    then show ?thesis unfolding ex
      by (auto simp add: update_conv' is_leaf_Nil split: option.splits)
  qed
next
  case (3 part hierarchy lst d)
  define v where "v = (case map_of d part of None \<Rightarrow> Dict [] | Some v \<Rightarrow> v)"
  have leafv: "\<And>r. is_leaf (Dict d) (part # r) = is_leaf v r"
    by (auto simp add: v_def split: option.splits)
  have ex: "(\<exists>q. is_leaf (Dict d) q \<and> prefix q ((part # hierarchy) @ [lst])) \<longleftrightarrow>
        (\<exists>q. is_leaf v q \<and> prefix q (hierarchy @ [lst]))" (is "?L \<longleftrightarrow> ?R")
  proof
    assume ?L
    then obtain q where q: "is_leaf (Dict d) q" "prefix q (part # hierarchy @ [lst])" by auto
    then obtain r where "q = part # r" "prefix r (hierarchy @ [lst])"
      by (cases q) auto
    with q leafv show ?R by auto
  next
    assume ?R
    then obtain q where "is_leaf v q" "prefix q (hierarchy @ [lst])" by auto
    then have "is_leaf (Dict d) (part # q) \<and> prefix (part # q) ((part # hierarchy) @ [lst])"
      using leafv by simp
    then show ?L by blast
  qed
  have IH: "\<And>p. is_leaf (add_path hierarchy lst v) p =
       (if \<exists>q. is_leaf v q \<and> prefix q (hierarchy @ [lst]) then is_leaf v p
        else p = hierarchy @ [lst] \<or> is_leaf v p \<and> \<not> prefix (hierarchy @ [lst]) p)"
    unfolding v_def by (rule "3.IH" [OF refl])
  have new: "add_path (part # hierarchy) lst (Dict d) =
      Dict (AList.update part (add_path hierarchy lst v) d)"
    by (simp add: v_def)
  show ?case
  proof (cases p)
    case Nil
    then show ?thesis by (simp add: new)
  next
    case (Cons k r)
    show ?thesis
    proof (cases "k = part")
      case True
      then show ?thesis unfolding ex new using Cons leafv IH
        by (auto simp add: update_conv')
    next
      case False
      then show ?thesis unfolding ex new using Cons
        by (simp add: update_conv')
    qed
  qed
qed

lemma ex_minimal_prefix:
  "q \<in> S \<Longrightarrow> \<exists>m \<in> minimal_paths S. prefix m q"
proof (induction "length q" arbitrary: q rule: less_induct)
  case less
  show ?case
  proof (cases "\<exists>r \<in> S. strict_prefix r q")
    case True
    then obtain r where r: "r \<in> S" "strict_prefix r q" by auto
    then have "length r < length q" by (metis prefix_length_less)
    from less.hyps [OF this r(1)] obtain m where "m \<in> minimal_paths S" "prefix m r" by auto
    with r(2) show ?thesis by (metis prefix_order.order_trans strict_prefix_def)
  next
    case False
    with less.prems have "q \<in> minimal_paths S" by (simp add: minimal_paths_def)
    then show ?thesis by auto
  qed
qed

lemma minimal_insert_absorbed:
  assumes "q \<in> minimal_paths S" "prefix q ps"
  shows "minimal_paths (insert ps S) = minimal_paths S"
proof (intro set_eqI iffI)
  fix p
  assume p: "p \<in> minimal_paths (insert ps S)"
  have qS: "q \<in> S" using assms(1) by (simp add: minimal_paths_def)
  have "p \<in> S"
  proof (rule ccontr)
    assume "p \<notin> S"
    with p have "p = ps" by (auto simp add: minimal_paths_def)
    with \<open>p \<notin> S\<close> qS assms(2) have "strict_prefix q p" by (auto simp add: strict_prefix_def)
    with p qS show False by (auto simp add: minimal_paths_def)
  qed
  with p show "p \<in> minimal_paths S" by (auto simp add: minimal_paths_def)
next
  fix p
  assume p: "p \<in> minimal_paths S"
  have qS: "q \<in> S" using assms(1) by (simp add: minimal_paths_def)
  have "\<not> strict_prefix ps p"
  proof
    assume "strict_prefix ps p"
    with assms(2) have "strict_prefix q p" by (metis prefix_order.le_less_trans)
    with p qS show False by (auto simp add: minimal_paths_def)
  qed
  with p show "p \<in> minimal_paths (insert ps S)" by (auto simp add: minimal_paths_def)
qed

lemma minimal_insert_new:
  assumes "\<not> (\<exists>q \<in> minimal_paths S. prefix q ps)"
  shows "minimal_paths (insert ps S) = insert ps {p \<in> minimal_paths S. \<not> prefix ps p}"
proof -
  have none: "\<And>q. q \<in> S \<Longrightarrow> \<not> prefix q ps"
  proof
    fix q assume "q \<in> S" "prefix q ps"
    from ex_minimal_prefix [OF this(1)] obtain m where "m \<in> minimal_paths S" "prefix m q" by auto
    with \<open>prefix q ps\<close> assms show False by (metis prefix_order.order_trans)
  qed
  then have psS: "ps \<notin> S" by auto
  show ?thesis
  proof (intro set_eqI iffI)
    fix p
    assume p: "p \<in> minimal_paths (insert ps S)"
    show "p \<in> insert ps {p \<in> minimal_paths S. \<not> prefix ps p}"
    proof (cases "p = ps")
      case True
      then show ?thesis by simp
    next
      case False
      with p have "p \<in> minimal_paths S" "\<not> strict_prefix ps p"
        by (auto simp add: minimal_paths_def)
      with False show ?thesis by (auto simp add: strict_prefix_def)
    qed
  next
    fix p
    assume p: "p \<in> insert ps {p \<in> minimal_paths S. \<not> prefix ps p}"
    show "p \<in> minimal_paths (insert ps S)"
    proof (cases "p = ps")
      case True
      then show ?thesis using none by (auto simp add: minimal_paths_def strict_prefix_def)
    next
      case False
      with p have "p \<in> minimal_paths S" "\<not> prefix ps p" by auto
      then show ?thesis by (auto simp add: minimal_paths_def strict_prefix_def)
    qed
  qed
qed

lemma add_path_absorb:
  "is_leaf t q \<Longrightarrow> strict_prefix q (h @ [l]) \<Longrightarrow> add_path h l t = t"
proof (induction h l t arbitrary: q rule: add_path.induct)
  case (1 hierarchy lst)
  then show ?case by simp
next
  case (2 lst d)
  then show ?case by (cases q) (auto simp add: strict_prefix_def prefix_single)
next
  case (3 part hierarchy lst d)
  from "3.prems" obtain r v where q: "q = part # r" and v: "map_of d part = Some v"
    and r: "is_leaf v r" "strict_prefix r (hierarchy @ [lst])"
    by (cases q) (auto split: option.splits)
  have "add_path hierarchy lst v = v"
    using "3.IH" [of v r] v r by simp
  then show ?case using v by (simp add: update_triv)
qed

lemma butlast_last_split [simp]: "butlast (split_dot f) @ [last (split_dot f)] = split_dot f"
  by simp

lemma add_field_eq:
  "add_field t f = add_path (butlast (split_dot f)) (last (split_dot f)) t"
  by (simp add: add_field_def Let_def)

lemma is_leaf_add_field_raw:
  "is_leaf (add_field t f) p \<longleftrightarrow>
     (if \<exists>q. is_leaf t q \<and> prefix q (split_dot f) then is_leaf t p
      else p = split_dot f \<or> (is_leaf t p \<and> \<not> prefix (split_dot f) p))"
  using is_leaf_add_path [of "butlast (split_dot f)" "last (split_dot f)" t p]
  by (simp only: add_field_eq butlast_last_split)

lemma is_leaf_add_field:
  assumes "\<And>p. is_leaf t p \<longleftrightarrow> p \<in> minimal_paths S"
  shows "is_leaf (add_field t f) p \<longleftrightarrow> p \<in> minimal_paths (insert (split_dot f) S)"
proof (cases "\<exists>q \<in> minimal_paths S. prefix q (split_dot f)")
  case True
  then obtain q where q: "q \<in> minimal_paths S" "prefix q (split_dot f)" by auto
  then have "\<exists>q. is_leaf t q \<and> prefix q (split_dot f)" using assms by blast
  then have "is_leaf (add_field t f) p \<longleftrightarrow> is_leaf t p"
    by (simp only: is_leaf_add_field_raw if_True)
  then show ?thesis using minimal_insert_absorbed [OF q] assms by simp
next
  case False
  then have "\<not> (\<exists>q. is_leaf t q \<and> prefix q (split_dot f))" using assms by blast
  then have "is_leaf (add_field t f) p \<longleftrightarrow>
      p = split_dot f \<or> (is_leaf t p \<and> \<not> prefix (split_dot f) p)"
    by (simp only: is_leaf_add_field_raw if_False)
  then show ?thesis using minimal_insert_new [OF False] assms by auto
qed

lemma is_leaf_foldl:
  assumes "\<And>p. is_leaf t p \<longleftrightarrow> p \<in> minimal_paths S"
  shows "is_leaf (foldl add_field t fs) p \<longleftrightarrow> p \<in> minimal_paths (S \<union> split_dot ` set fs)"
  using assms
proof (induction fs arbitrary: t S)
  case Nil
  then show ?case by simp
next
  case (Cons f fs)
  have "\<And>p. is_leaf (add_field t f) p \<longleftrightarrow> p \<in> minimal_paths (insert (split_dot f) S)"
    using is_leaf_add_field [of t S] Cons.prems by blast
  from Cons.IH [OF this] show ?case by simp
qed

lemma wf_foldl: "wf_trie t \<Longrightarrow> wf_trie (foldl add_field t fs)"
  by (induction fs arbitrary: t) (auto simp add: add_field_eq wf_add_path)

lemma split_dot_inj: "split_dot a = split_dot b \<Longrightarrow> a = b"
  by (metis join_split)

lemma flatten_foldl:
  "flatten (foldl add_field (Dict []) fs) = leaf_path_set fs"
proof -
  let ?t = "foldl add_field (Dict []) fs"
  have wf: "wf_trie ?t" by (rule wf_foldl) simp
  have leaf: "\<And>p. is_leaf ?t p \<longleftrightarrow> p \<in> minimal_paths (split_dot ` set fs)"
    using is_leaf_foldl [of "Dict []" "{}" fs] by (simp add: minimal_paths_def)
  have "set (leaf_paths ?t) = minimal_paths (split_dot ` set fs)"
    using leaf_paths_is_leaf [OF wf] leaf by blast
  then have "flatten ?t = join_dot ` minimal_paths (split_dot ` set fs)"
    by (simp add: flatten_def)
  also have "\<dots> = leaf_path_set fs"
  proof (intro set_eqI iffI)
    fix s assume "s \<in> join_dot ` minimal_paths (split_dot ` set fs)"
    then show "s \<in> leaf_path_set fs"
      by (auto simp add: minimal_paths_def leaf_path_set_def)
  next
    fix s assume s: "s \<in> leaf_path_set fs"
    then have "split_dot s \<in> minimal_paths (split_dot ` set fs)"
      by (auto simp add: minimal_paths_def leaf_path_set_def)
    then have "join_dot (split_dot s) \<in> join_dot ` minimal_paths (split_dot ` set fs)"
      by (rule imageI)
    then show "s \<in> join_dot ` minimal_paths (split_dot ` set fs)" by simp
  qed
  finally show ?thesis .
qed

text \<open>
  C4. For every iterable of dotted field paths, in whatever order the loop of
  \<^verbatim>\<open>fields_to_dict\<close> meets them, the result flattens back to exactly the leaf paths of
  the input: the paths none of whose proper prefixes (segment by segment) is itself
  among the input. A path one of whose proper prefixes is already marked
  \<^verbatim>\<open>ALL_SUBFIELDS\<close> in the trie is absorbed: adding it leaves the trie as it is.
\<close>

theorem fields_to_dict_round_trip:
  "flatten_result (fields_to_dict fs) = leaf_path_set fs \<and>
   (\<forall>t f q. fields_to_dict fs = Some t \<and> q \<in> set (leaf_paths t) \<and>
        strict_prefix q (split_dot f) \<longrightarrow>
      fields_to_dict (fs @ [f]) = Some t)"
proof (cases "fs = []")
  case True
  then show ?thesis
    by (simp add: fields_to_dict_def flatten_result_def leaf_path_set_def)
next
  case False
  let ?t = "foldl add_field (Dict []) fs"
  have wf: "wf_trie ?t" by (rule wf_foldl) simp
  have absorb: "fields_to_dict (fs @ [f]) = Some ?t"
    if "q \<in> set (leaf_paths ?t)" "strict_prefix q (split_dot f)" for f q
  proof -
    from that(1) have "is_leaf ?t q" using leaf_paths_is_leaf [OF wf] by simp
    then have "add_field ?t f = ?t"
      using add_path_absorb [of ?t q "butlast (split_dot f)" "last (split_dot f)"] that(2)
      by (simp add: add_field_eq)
    then show ?thesis by (simp add: fields_to_dict_def)
  qed
  have t: "fields_to_dict fs = Some ?t" using False by (simp add: fields_to_dict_def)
  then have "flatten_result (fields_to_dict fs) = leaf_path_set fs"
    using flatten_foldl [of fs] by (simp add: flatten_result_def)
  with t absorb show ?thesis by auto
qed

theorem fields_to_dict_round_trip_witness:
  "fields_to_dict [''a.b'', ''a'', ''c.d''] =
     Some (Dict [(''a'', ALL_SUBFIELDS), (''c'', Dict [(''d'', ALL_SUBFIELDS)])]) \<and>
   flatten_result (fields_to_dict [''a.b'', ''a'', ''c.d'']) =
     leaf_path_set [''a.b'', ''a'', ''c.d''] \<and>
   flatten_result (fields_to_dict [''a.b'', ''a'', ''c.d'']) = {''a'', ''c.d''} \<and>
   fields_to_dict ([''a.b'', ''a'', ''c.d''] @ [''a.x.y'']) =
     Some (Dict [(''a'', ALL_SUBFIELDS), (''c'', Dict [(''d'', ALL_SUBFIELDS)])])"
proof -
  let ?fs = "[''a.b'', ''a'', ''c.d'']"
  let ?T = "Dict [(''a'', ALL_SUBFIELDS), (''c'', Dict [(''d'', ALL_SUBFIELDS)])]"
  have T: "fields_to_dict ?fs = Some ?T"
    by (simp add: fields_to_dict_def add_field_def)
  have p: "[''a''] \<in> set (leaf_paths ?T) \<and> strict_prefix [''a''] (split_dot ''a.x.y'')"
    by (simp add: strict_prefix_def)
  from fields_to_dict_round_trip [of ?fs]
  have rt: "flatten_result (fields_to_dict ?fs) = leaf_path_set ?fs"
    and ab: "\<forall>t f q. fields_to_dict ?fs = Some t \<and> q \<in> set (leaf_paths t) \<and>
        strict_prefix q (split_dot f) \<longrightarrow> fields_to_dict (?fs @ [f]) = Some t"
    by blast+
  have absorbed: "fields_to_dict (?fs @ [''a.x.y'']) = Some ?T"
    using ab T p by blast
  have fl: "flatten_result (fields_to_dict ?fs) = {''a'', ''c.d''}"
    unfolding T by (simp add: flatten_result_def flatten_def join_dot_def)
  show ?thesis using T rt absorbed fl by blast
qed

subsection \<open>Rendering: calculate_query\<close>

lemma sequence_err_Inr:
  "sequence_err rs = Inr ys \<Longrightarrow> r \<in> set rs \<Longrightarrow> \<exists>y. r = Inr y"
  by (induction rs arbitrary: ys rule: sequence_err.induct) (auto split: sum.splits)

lemma sequence_err_Inl:
  "Inl e \<in> set rs \<Longrightarrow> \<exists>e'. sequence_err rs = Inl e'"
  by (induction rs rule: sequence_err.induct) (auto split: sum.splits)

lemma item_calculate_query_Inr:
  "item_calculate_query n it = Inr s \<Longrightarrow> x \<in> set (all_items it) \<Longrightarrow>
     item_has_edges x \<Longrightarrow> item_children x \<noteq> []"
proof (induction n it arbitrary: s x rule: item_calculate_query.induct)
  case (1 indent nm has_edges filters children)
  show ?case
  proof (cases "children = []")
    case True
    with "1.prems" show ?thesis by (auto split: if_splits)
  next
    case False
    let ?ci = "indent + (if has_edges then 2 * 2 else 0) + 2"
    from "1.prems"(1) False obtain rendered where
      r: "sequence_err (map (item_calculate_query ?ci) children) = Inr rendered"
      by (auto simp add: Let_def split: sum.splits)
    show ?thesis
    proof (cases "x = GraphQlQueryItem nm has_edges filters children")
      case True
      with False show ?thesis by simp
    next
      case neq: False
      with "1.prems"(2) obtain c where c: "c \<in> set children" "x \<in> set (all_items c)" by auto
      from sequence_err_Inr [OF r, of "item_calculate_query ?ci c"] c(1)
      obtain y where "item_calculate_query ?ci c = Inr y" by auto
      from "1.IH" [OF refl refl False refl refl refl c(1) this c(2) "1.prems"(3)]
      show ?thesis .
    qed
  qed
qed

lemma item_calculate_query_edges_childless:
  "item_has_edges it \<Longrightarrow> item_children it = [] \<Longrightarrow>
     item_calculate_query n it = Inl (ValueError ''Edged item don't have specified child fields'')"
  by (cases it) simp

lemma example_render: "calculate_query example_query =
     Inr (''query Q($projectName: String!) {'' @ newline @
          ''  project(name: $projectName) {'' @ newline @
          ''    folders {'' @ newline @
          ''      edges {'' @ newline @
          ''        node {'' @ newline @
          ''          id'' @ newline @
          ''        }'' @ newline @
          ''      }'' @ newline @
          ''    }'' @ newline @
          ''  }'' @ newline @
          ''}'')"
  by code_simp

text \<open>
  C8. \<^verbatim>\<open>calculate_query\<close> of a query without child fields is the ValueError "Missing
  fields to query"; \<^verbatim>\<open>calculate_query\<close> of a field node that has edges and no children is
  the ValueError "Edged item don't have specified child fields"; and when the rendering
  of a query succeeds, the query has a child and every node of its tree that has edges
  has a child. Rendering is a function of the query alone: it takes no connection, so
  the failure comes before any network call.
\<close>

theorem calculate_query_fails_fast:
  "(children q = [] \<longrightarrow> calculate_query q = Inl (ValueError ''Missing fields to query'')) \<and>
   (item_has_edges it \<and> item_children it = [] \<longrightarrow>
      item_calculate_query n it =
        Inl (ValueError ''Edged item don't have specified child fields'')) \<and>
   (calculate_query q = Inr s \<longrightarrow>
      children q \<noteq> [] \<and>
      (\<forall>c \<in> set (children q). \<forall>x \<in> set (all_items c).
         item_has_edges x \<longrightarrow> item_children x \<noteq> []))"
proof (intro conjI impI)
  assume "children q = []"
  then show "calculate_query q = Inl (ValueError ''Missing fields to query'')"
    by (simp add: calculate_query_def)
next
  assume "item_has_edges it \<and> item_children it = []"
  then show "item_calculate_query n it =
      Inl (ValueError ''Edged item don't have specified child fields'')"
    by (simp add: item_calculate_query_edges_childless)
next
  assume "calculate_query q = Inr s"
  then show "children q \<noteq> []"
    by (auto simp add: calculate_query_def)
next
  assume ok: "calculate_query q = Inr s"
  then have ne: "children q \<noteq> []" by (auto simp add: calculate_query_def)
  with ok obtain rendered where
    r: "sequence_err (map (item_calculate_query 2) (children q)) = Inr rendered"
    by (auto simp add: calculate_query_def Let_def split: sum.splits)
  show "\<forall>c \<in> set (children q). \<forall>x \<in> set (all_items c).
         item_has_edges x \<longrightarrow> item_children x \<noteq> []"
  proof (intro ballI impI)
    fix c x
    assume c: "c \<in> set (children q)" and x: "x \<in> set (all_items c)" and e: "item_has_edges x"
    from sequence_err_Inr [OF r, of "item_calculate_query 2 c"] c
    obtain y where "item_calculate_query 2 c = Inr y" by auto
    from item_calculate_query_Inr [OF this x e] show "item_children x \<noteq> []" .
  qed
qed

theorem calculate_query_fails_fast_witness:
  "calculate_query (new_query ''Q'') = Inl (ValueError ''Missing fields to query'') \<and>
   item_calculate_query 2 (new_item ''folders'' True) =
     Inl (ValueError ''Edged item don't have specified child fields'') \<and>
   (\<exists>s. calculate_query example_query = Inr s) \<and>
   children example_query \<noteq> [] \<and>
   item_has_edges (GraphQlQueryItem ''folders'' True [] [new_item ''id'' False]) \<and>
   item_children (GraphQlQueryItem ''folders'' True [] [new_item ''id'' False]) \<noteq> []"
proof -
  let ?folders = "GraphQlQueryItem ''folders'' True [] [new_item ''id'' False]"
  let ?project = "GraphQlQueryItem ''project'' False [(''name'', Filter_str ''$projectName'')] [?folders]"
  have a: "children (new_query ''Q'') = []" by (simp add: new_query_def)
  have b: "item_has_edges (new_item ''folders'' True) \<and> item_children (new_item ''folders'' True) = []"
    by (simp add: new_item_def)
  obtain s where c: "calculate_query example_query = Inr s" using example_render by blast
  from calculate_query_fails_fast [of "new_query ''Q''" "new_item ''folders'' True" 2 s] a b
  have 1: "calculate_query (new_query ''Q'') = Inl (ValueError ''Missing fields to query'')"
    and 2: "item_calculate_query 2 (new_item ''folders'' True) =
       Inl (ValueError ''Edged item don't have specified child fields'')"
    by blast+
  from calculate_query_fails_fast [of example_query "new_item ''folders'' True" 2 s] c
  have 3: "children example_query \<noteq> []"
    and 4: "\<forall>c \<in> set (children example_query). \<forall>x \<in> set (all_items c).
        item_has_edges x \<longrightarrow> item_children x \<noteq> []"
    by blast+
  have "?project \<in> set (children example_query)" by (simp add: example_query_def)
  moreover have "?folders \<in> set (all_items ?project)" by simp
  moreover have e: "item_has_edges ?folders" by simp
  ultimately have 5: "item_children ?folders \<noteq> []" using 4 by blast
  from 1 2 3 5 c e show ?thesis by blast
qed

text \<open>
  C9. What \<^verbatim>\<open>_filters_to_string\<close> renders for a filter whose value is a list: the
  bracketed list of quoted items alone, \<^verbatim>\<open>(["a", "b"])\<close>, without the key and the colon
  (the grammar \<^verbatim>\<open>field(arg: value)\<close> asks for \<^verbatim>\<open>(folderIds: ["a", "b"])\<close>); a value that
  is not iterable renders as \<^verbatim>\<open>key: value\<close>.
\<close>

theorem filters_to_string_list_without_key:
  "filters_to_string [(''folderIds'', Filter_iterable [''a'', ''b''])] =
     ''(['' @ dquote @ ''a'' @ dquote @ '', '' @ dquote @ ''b'' @ dquote @ ''])'' \<and>
   filters_to_string [(''limit'', Filter_scalar ''3'')] = ''(limit: 3)''"
  by (simp add: filters_to_string_def)

text \<open>
  C10, as stated, fails on a query without child fields: the check of the children comes
  first, so the query below, whose only variable is declared with \<^verbatim>\<open>"String!"\<close>, raises
  ValueError and not TypeError.
\<close>

theorem calculate_query_no_children_ValueError:
  "calculate_query
     (add_variable ''projectName'' (Str_value ''String!'') (PStr ''proj'') (new_query ''Q'')) =
   Inl (ValueError ''Missing fields to query'')"
  by (simp add: calculate_query_def add_variable_def new_query_def)

lemma sequence_err_map_TypeError:
  "x \<in> set xs \<Longrightarrow> (\<exists>m. f x = Inl (TypeError m)) \<Longrightarrow>
   (\<forall>y \<in> set xs. \<forall>e. f y = Inl e \<longrightarrow> (\<exists>m. e = TypeError m)) \<Longrightarrow>
   \<exists>m. sequence_err (map f xs) = Inl (TypeError m)"
proof (induction xs)
  case Nil
  then show ?case by simp
next
  case (Cons a xs)
  show ?case
  proof (cases "f a")
    case (Inl e)
    with Cons.prems(3) obtain m where "e = TypeError m" by auto
    with Inl show ?thesis by simp
  next
    case (Inr t)
    with Cons.prems have "x \<in> set xs" by auto
    from Cons.IH [OF this Cons.prems(2)] Cons.prems(3)
    obtain m where "sequence_err (map f xs) = Inl (TypeError m)" by auto
    with Inr show ?thesis by simp
  qed
qed

lemma variable_to_string_TypeError:
  "fst (snd kv) \<noteq> Type_str \<Longrightarrow> \<exists>m. variable_to_string kv = Inl (TypeError m)"
  by (simp add: variable_to_string_def value_type_to_string_def six_string_types_def)

lemma variable_to_string_only_TypeError:
  "variable_to_string kv = Inl e \<Longrightarrow> \<exists>m. e = TypeError m"
  by (auto simp add: variable_to_string_def value_type_to_string_def split: if_splits sum.splits)

text \<open>
  C10, amended. \<^verbatim>\<open>calculate_query\<close> raises TypeError for every query that has at least
  one child field and declares at least one variable whose type is not the type object
  \<^verbatim>\<open>str\<close>; in particular a variable declared with the string \<^verbatim>\<open>"String!"\<close> makes the
  rendering of every query with a child field raise TypeError. A query without child
  fields raises the ValueError "Missing fields to query" first, whatever its variables.
\<close>

theorem calculate_query_TypeError:
  "(children q \<noteq> [] \<and> (\<exists>kv \<in> set (variables q). fst (snd kv) \<noteq> Type_str) \<longrightarrow>
      (\<exists>m. calculate_query q = Inl (TypeError m))) \<and>
   (children q \<noteq> [] \<and> (\<exists>kv \<in> set (variables q). fst (snd kv) = Str_value ''String!'') \<longrightarrow>
      (\<exists>m. calculate_query q = Inl (TypeError m))) \<and>
   (children q = [] \<longrightarrow> calculate_query q = Inl (ValueError ''Missing fields to query''))"
proof -
  have bad: "\<exists>m. calculate_query q = Inl (TypeError m)"
    if ne: "children q \<noteq> []" and kv: "kv \<in> set (variables q)" "fst (snd kv) \<noteq> Type_str"
    for kv
  proof -
    have "\<exists>m. sequence_err (map variable_to_string (variables q)) = Inl (TypeError m)"
      using sequence_err_map_TypeError [of kv "variables q" variable_to_string]
        kv(1) variable_to_string_TypeError [OF kv(2)] variable_to_string_only_TypeError
      by blast
    with ne show ?thesis by (auto simp add: calculate_query_def)
  qed
  have 1: "children q \<noteq> [] \<and> (\<exists>kv \<in> set (variables q). fst (snd kv) \<noteq> Type_str) \<longrightarrow>
      (\<exists>m. calculate_query q = Inl (TypeError m))"
    using bad by blast
  have 2: "children q \<noteq> [] \<and>
      (\<exists>kv \<in> set (variables q). fst (snd kv) = Str_value ''String!'') \<longrightarrow>
      (\<exists>m. calculate_query q = Inl (TypeError m))"
  proof
    assume a: "children q \<noteq> [] \<and>
      (\<exists>kv \<in> set (variables q). fst (snd kv) = Str_value ''String!'')"
    then obtain kv where "kv \<in> set (variables q)" "fst (snd kv) = Str_value ''String!''"
      by blast
    then have "kv \<in> set (variables q)" "fst (snd kv) \<noteq> Type_str" by simp_all
    with a bad show "\<exists>m. calculate_query q = Inl (TypeError m)" by blast
  qed
  have 3: "children q = [] \<longrightarrow> calculate_query q = Inl (ValueError ''Missing fields to query'')"
    by (simp add: calculate_query_def)
  from 1 2 3 show ?thesis by blast
qed

theorem calculate_query_TypeError_witness:
  "children string_typed_query \<noteq> [] \<and>
   (''projectName'', Str_value ''String!'', PStr ''proj'') \<in> set (variables string_typed_query) \<and>
   calculate_query string_typed_query = Inl (TypeError ''Unknown conversion for String!'') \<and>
   children (add_variable ''projectName'' (Str_value ''String!'') (PStr ''proj'')
      (new_query ''ProjectQuery'')) = [] \<and>
   calculate_query (add_variable ''projectName'' (Str_value ''String!'') (PStr ''proj'')
      (new_query ''ProjectQuery'')) = Inl (ValueError ''Missing fields to query'')"
proof -
  let ?empty = "add_variable ''projectName'' (Str_value ''String!'') (PStr ''proj'')
      (new_query ''ProjectQuery'')"
  have a: "children string_typed_query \<noteq> []"
    by (simp add: string_typed_query_def add_obj_field_def add_variable_def new_query_def Let_def)
  have b: "(''projectName'', Str_value ''String!'', PStr ''proj'') \<in>
      set (variables string_typed_query)"
    by (simp add: string_typed_query_def add_obj_field_def add_variable_def new_query_def Let_def)
  then have c: "\<exists>kv \<in> set (variables string_typed_query). fst (snd kv) \<noteq> Type_str"
    and d: "\<exists>kv \<in> set (variables string_typed_query). fst (snd kv) = Str_value ''String!''"
    by force+
  from calculate_query_TypeError [of string_typed_query] a c d
  obtain m where m: "calculate_query string_typed_query = Inl (TypeError m)" by blast
  have "calculate_query string_typed_query = Inl (TypeError ''Unknown conversion for String!'')"
    by (simp add: calculate_query_def string_typed_query_def new_query_def add_variable_def
        add_obj_field_def variable_to_string_def value_type_to_string_def six_string_types_def
        Let_def)
  with m have e: "calculate_query string_typed_query =
      Inl (TypeError ''Unknown conversion for String!'')" by simp
  have f: "children ?empty = []" by (simp add: add_variable_def new_query_def)
  from calculate_query_TypeError [of ?empty] f
  have g: "calculate_query ?empty = Inl (ValueError ''Missing fields to query'')" by blast
  from a b e f g show ?thesis by blast
qed

section \<open>Properties of the entity queries\<close>

lemmas entity_defs = fixed_connection_def repre_active_def repre_inactive_def
  get_v4_representations_def select_fields_def run_query_def graphql_query_def
  set_variable_values_def active_eq_def getitem_def py_eq_def pyval_of_active_def

lemmas versions_defs = fixed_connection_def hero_connection_def version_standard_def
  version_hero_def private_get_versions_def get_v4_versions_def select_fields_def
  run_query_def graphql_query_def set_variable_values_def getitem_def py_eq_def
  py_lt_zero_def py_abs_def conv_hero_def get_last_version_by_subset_id_def

subsection \<open>Post-filter of get_v4_representations\<close>

text \<open>
  C1. What \<^verbatim>\<open>get_v4_representations\<close> returns when the server answers with an active and an
  inactive record: with \<^verbatim>\<open>active=True\<close> both records, the inactive one included (the
  post-filter is skipped, as its condition reads \<^verbatim>\<open>if active is None\<close>); with
  \<^verbatim>\<open>active=None\<close> no record at all (the post-filter runs and keeps the records whose
  \<^verbatim>\<open>"active"\<close> equals \<^verbatim>\<open>None\<close>). The claim asks for the active record alone in the
  first call and for both records in the second.
\<close>

theorem get_v4_representations_active_filter_inverted:
  "fst (get_v4_representations D ''proj'' None None None None (Some True) None
          (fixed_connection [repre_active, repre_inactive])) =
     Inr [repre_active, repre_inactive] \<and>
   fst (get_v4_representations D ''proj'' None None None None None None
          (fixed_connection [repre_active, repre_inactive])) = Inr []"
  by (simp add: entity_defs Let_def)

subsection \<open>get_last_version_by_subset_id\<close>

text \<open>
  C2. What \<^verbatim>\<open>get_last_version_by_subset_id\<close> returns, for any field conversion and record
  conversion: \<^verbatim>\<open>None\<close> when the lookup holds a version, and IndexError when the lookup
  is empty (the condition reads \<^verbatim>\<open>if not versions\<close>). The claim asks for the first
  version in the first case and \<^verbatim>\<open>None\<close> in the second.
\<close>

theorem get_last_version_by_subset_id_inverted:
  "fst (get_last_version_by_subset_id to_v4 conv D ''proj'' (PStr ''S'') fs
          (fixed_connection [version_standard])) = Inr None \<and>
   fst (get_last_version_by_subset_id to_v4 conv D ''proj'' (PStr ''S'') fs
          (fixed_connection [])) = Inl (IndexError ''list index out of range'')"
  by (simp add: versions_defs Let_def)

subsection \<open>Hero versions in _get_versions\<close>

text \<open>
  C3. For the hero version -3 of subset S, the record \<^verbatim>\<open>conv_hero\<close> that the last loop of
  \<^verbatim>\<open>_get_versions\<close> computes carries \<^verbatim>\<open>version_id = "V123"\<close> when the secondary lookup
  holds the standard version 3 of S with id V123, and \<^verbatim>\<open>version_id = None\<close> when it holds
  no match. The loop stores the record nowhere: \<^verbatim>\<open>_get_versions\<close> runs both queries and
  returns the empty list of standard versions, so the converted hero record is not part
  of the result, which the claim asks for.
\<close>

theorem get_versions_drops_hero:
  "conv_hero conv [(PStr ''S'', [version_standard])] version_hero =
     Inr (AList.update ''version_id'' (PStr ''V123'') (conv version_hero)) \<and>
   conv_hero conv [] version_hero =
     Inr (AList.update ''version_id'' PNone (conv version_hero)) \<and>
   fst (private_get_versions to_v4 conv D ''proj'' None None None True True None fs
          (hero_connection [version_standard])) = Inr [] \<and>
   length (calls (snd (private_get_versions to_v4 conv D ''proj'' None None None True True
          None fs (hero_connection [version_standard])))) = 2"
  by (simp add: versions_defs Let_def)

subsection \<open>Empty filters\<close>

text \<open>
  C5, as stated, fails for \<^verbatim>\<open>get_v4_representations\<close>: when \<^verbatim>\<open>names_by_version_ids\<close> is
  given, \<^verbatim>\<open>representation_names\<close> and \<^verbatim>\<open>version_ids\<close> are not looked at, so the call
  below, with \<^verbatim>\<open>representation_names=[]\<close>, queries the connection once and returns the
  record of its answer.
\<close>

theorem empty_names_with_names_by_version_ids_queries:
  "fst (get_v4_representations {''id''} ''proj'' None (Some {}) None
          (Some [(PStr ''v1'', {PStr ''main''})]) (Some True) None
          (fixed_connection [repre_active])) = Inr [repre_active] \<and>
   length (calls (snd (get_v4_representations {''id''} ''proj'' None (Some {}) None
          (Some [(PStr ''v1'', {PStr ''main''})]) (Some True) None
          (fixed_connection [repre_active])))) = 1"
  by (simp add: entity_defs Let_def)

text \<open>
  C5, amended. Whenever a filter argument that the function applies is passed as an
  empty iterable, the v4 query function returns the empty collection and leaves the
  connection as it was (no query is built or run): every filter of \<^verbatim>\<open>get_v4_folders\<close>,
  \<^verbatim>\<open>get_v4_folders_tasks\<close>, \<^verbatim>\<open>get_v4_tasks\<close> and \<^verbatim>\<open>get_v4_versions\<close>; for
  \<^verbatim>\<open>get_v4_representations\<close>, \<^verbatim>\<open>representation_ids\<close>, an empty \<^verbatim>\<open>names_by_version_ids\<close>,
  and \<^verbatim>\<open>representation_names\<close> and \<^verbatim>\<open>version_ids\<close> when \<^verbatim>\<open>names_by_version_ids\<close> is
  \<^verbatim>\<open>None\<close>.
\<close>

theorem empty_filter_short_circuit:
  "(folder_ids = Some {} \<or> folder_paths = Some {} \<or> folder_names = Some {} \<or>
      parent_ids = Some {} \<longrightarrow>
      get_v4_folders D1 project_name folder_ids folder_paths folder_names parent_ids active fs con
        = (Inr [], con) \<and>
      get_v4_folders_tasks D2 project_name folder_ids folder_paths folder_names parent_ids active
        fs con = (Inr [], con)) \<and>
   (task_ids = Some {} \<or> task_names = Some {} \<or> task_types = Some {} \<or>
      folder_ids = Some {} \<longrightarrow>
      get_v4_tasks D3 project_name task_ids task_names task_types folder_ids active fs con
        = (Inr [], con)) \<and>
   (version_ids = Some {} \<or> subset_ids = Some {} \<or> versions = Some {} \<longrightarrow>
      get_v4_versions D4 project_name version_ids subset_ids versions hero standard latest fs con
        = ([], con)) \<and>
   (representation_ids = Some {} \<or> names_by_version_ids = Some [] \<or>
      (names_by_version_ids = None \<and>
         (representation_names = Some {} \<or> repre_version_ids = Some {})) \<longrightarrow>
      get_v4_representations D5 project_name representation_ids representation_names
        repre_version_ids names_by_version_ids active fs con = (Inr [], con))"
proof (intro conjI impI)
  assume "folder_ids = Some {} \<or> folder_paths = Some {} \<or> folder_names = Some {} \<or>
      parent_ids = Some {}"
  then have "folder_filters project_name folder_ids folder_paths folder_names parent_ids = None"
    by (auto simp add: folder_filters_def Let_def)
  then show "get_v4_folders D1 project_name folder_ids folder_paths folder_names parent_ids
      active fs con = (Inr [], con)"
    and "get_v4_folders_tasks D2 project_name folder_ids folder_paths folder_names parent_ids
      active fs con = (Inr [], con)"
    by (simp_all add: get_v4_folders_def get_v4_folders_tasks_def)
next
  assume "task_ids = Some {} \<or> task_names = Some {} \<or> task_types = Some {} \<or>
      folder_ids = Some {}"
  then show "get_v4_tasks D3 project_name task_ids task_names task_types folder_ids active fs con
        = (Inr [], con)"
    by (auto simp add: get_v4_tasks_def Let_def)
next
  assume "version_ids = Some {} \<or> subset_ids = Some {} \<or> versions = Some {}"
  then show "get_v4_versions D4 project_name version_ids subset_ids versions hero standard
      latest fs con = ([], con)"
    by (auto simp add: get_v4_versions_def Let_def)
next
  assume "representation_ids = Some {} \<or> names_by_version_ids = Some [] \<or>
      (names_by_version_ids = None \<and>
         (representation_names = Some {} \<or> repre_version_ids = Some {}))"
  then show "get_v4_representations D5 project_name representation_ids representation_names
        repre_version_ids names_by_version_ids active fs con = (Inr [], con)"
    by (auto simp add: get_v4_representations_def Let_def)
qed

theorem empty_filter_short_circuit_witness:
  "get_v4_folders {''id''} ''proj'' (Some {}) None None None None None
      (fixed_connection [repre_active]) = (Inr [], fixed_connection [repre_active]) \<and>
   get_v4_folders_tasks {''id''} ''proj'' (Some {}) None None None None None
      (fixed_connection [repre_active]) = (Inr [], fixed_connection [repre_active]) \<and>
   get_v4_tasks {''id''} ''proj'' None (Some {}) None (Some {}) None None
      (fixed_connection [repre_active]) = (Inr [], fixed_connection [repre_active]) \<and>
   get_v4_versions {''id''} ''proj'' (Some {}) None None True True None None
      (fixed_connection [repre_active]) = ([], fixed_connection [repre_active]) \<and>
   get_v4_representations {''id''} ''proj'' None (Some {}) None None None None
      (fixed_connection [repre_active]) = (Inr [], fixed_connection [repre_active])"
  using empty_filter_short_circuit [where folder_ids = "Some {}" and folder_paths = None
      and folder_names = None and parent_ids = None and ?D1.0 = "{''id''}"
      and project_name = "''proj''" and active = None and fs = None
      and con = "fixed_connection [repre_active]" and ?D2.0 = "{''id''}"
      and task_ids = None and task_names = "Some {}" and task_types = None
      and ?D3.0 = "{''id''}" and version_ids = "Some {}" and subset_ids = None
      and versions = None and ?D4.0 = "{''id''}" and hero = True and standard = True
      and latest = None and representation_ids = None and names_by_version_ids = None
      and representation_names = "Some {}" and repre_version_ids = None
      and ?D5.0 = "{''id''}"]
  by simp

subsection \<open>Filter mode of get_v4_versions\<close>

text \<open>
  C6. \<^verbatim>\<open>get_v4_versions\<close> with neither \<open>hero\<close> nor \<open>standard\<close> returns the empty list and
  leaves the connection as it was. Otherwise (no filter being an empty iterable) it runs
  one query, in which \<^verbatim>\<open>heroOnly\<close> is bound to \<^verbatim>\<open>True\<close> exactly when \<open>hero\<close> and not
  \<open>standard\<close>; else \<^verbatim>\<open>heroOrLatestOnly\<close> exactly when \<open>hero\<close> and \<open>latest\<close>; else
  \<^verbatim>\<open>latestOnly\<close> exactly when \<open>latest\<close>; and none of the three otherwise.
\<close>

theorem get_v4_versions_filter_mode:
  assumes "version_ids \<noteq> Some {}" "subset_ids \<noteq> Some {}" "versions \<noteq> Some {}"
  shows "(\<not> hero \<and> \<not> standard \<longrightarrow>
      get_v4_versions D project_name version_ids subset_ids versions hero standard latest fs con
        = ([], con)) \<and>
    (hero \<or> standard \<longrightarrow>
      (\<exists>query.
         get_v4_versions D project_name version_ids subset_ids versions hero standard latest fs con
           = (query_response con query, con\<lparr>calls := calls con @ [query]\<rparr>) \<and>
         variable_values query ''heroOnly'' =
           (if hero \<and> \<not> standard then Some (Value_bool True) else None) \<and>
         variable_values query ''heroOrLatestOnly'' =
           (if \<not> (hero \<and> \<not> standard) \<and> hero \<and> latest = Some True
            then Some (Value_bool True) else None) \<and>
         variable_values query ''latestOnly'' =
           (if \<not> (hero \<and> \<not> standard) \<and> \<not> (hero \<and> latest = Some True) \<and> latest = Some True
            then Some (Value_bool True) else None)))"
proof (intro conjI impI)
  assume "\<not> hero \<and> \<not> standard"
  then show "get_v4_versions D project_name version_ids subset_ids versions hero standard
      latest fs con = ([], con)"
    by (simp add: get_v4_versions_def Let_def)
next
  assume "hero \<or> standard"
  then show "\<exists>query.
         get_v4_versions D project_name version_ids subset_ids versions hero standard latest fs con
           = (query_response con query, con\<lparr>calls := calls con @ [query]\<rparr>) \<and>
         variable_values query ''heroOnly'' =
           (if hero \<and> \<not> standard then Some (Value_bool True) else None) \<and>
         variable_values query ''heroOrLatestOnly'' =
           (if \<not> (hero \<and> \<not> standard) \<and> hero \<and> latest = Some True
            then Some (Value_bool True) else None) \<and>
         variable_values query ''latestOnly'' =
           (if \<not> (hero \<and> \<not> standard) \<and> \<not> (hero \<and> latest = Some True) \<and> latest = Some True
            then Some (Value_bool True) else None)"
    using assms
    by (auto simp add: get_v4_versions_def Let_def run_query_def set_variable_values_def
        graphql_query_def split: option.splits)
qed

theorem get_v4_versions_filter_mode_witness:
  "\<exists>query.
     get_v4_versions {''id''} ''proj'' None (Some {PStr ''s1''}) None True True (Some True) None
         (fixed_connection [version_standard]) =
       (query_response (fixed_connection [version_standard]) query,
        (fixed_connection [version_standard])
          \<lparr>calls := calls (fixed_connection [version_standard]) @ [query]\<rparr>) \<and>
     variable_values query ''heroOnly'' = None \<and>
     variable_values query ''heroOrLatestOnly'' = Some (Value_bool True) \<and>
     variable_values query ''latestOnly'' = None"
proof -
  have a: "(None :: pyval set option) \<noteq> Some {}" "Some {PStr ''s1''} \<noteq> Some {}" by simp_all
  from get_v4_versions_filter_mode [OF a(1) a(2) a(1), of True True "{''id''}" "''proj''"
      "Some True" None "fixed_connection [version_standard]"]
  show ?thesis by simp
qed

subsection \<open>Parent ids\<close>

lemma parent_ids_to_root_eq:
  "PNone \<in> parent_ids \<or> PStr project_name \<in> parent_ids \<Longrightarrow>
   parent_ids_to_root project_name parent_ids =
     insert (PStr ''root'') (parent_ids - {PNone, PStr project_name})"
  by (auto simp add: parent_ids_to_root_def Let_def)

lemma folder_filters_parent_ids:
  assumes "folder_ids \<noteq> Some {}" "folder_paths \<noteq> Some {}" "folder_names \<noteq> Some {}"
    and "parent_ids \<noteq> {}"
  shows "\<exists>filters.
     folder_filters project_name folder_ids folder_paths folder_names (Some parent_ids) =
       Some filters \<and>
     filters ''parentFolderIds'' = Some (Value_list (parent_ids_to_root project_name parent_ids))"
  using assms by (simp add: folder_filters_def Let_def)

text \<open>
  C7, as stated, fails for a project whose own name is \<^verbatim>\<open>"root"\<close>: the project name in
  \<^verbatim>\<open>parent_ids\<close> is replaced by the sentinel \<^verbatim>\<open>"root"\<close>, which is the project name again,
  so an entry equal to the project name remains in \<^verbatim>\<open>parentFolderIds\<close>.
\<close>

theorem project_named_root_keeps_its_name:
  "variable_values
     (last (calls (snd (get_v4_folders {''id''} ''root'' None None None (Some {PStr ''root''})
        None None (fixed_connection [])))))
     ''parentFolderIds'' = Some (Value_list {PStr ''root''})"
  by (simp add: get_v4_folders_def folder_filters_def parent_ids_to_root_def
      run_continuous_query_def set_variable_values_def graphql_query_def select_fields_def
      fixed_connection_def Let_def)

text \<open>
  C7, amended. For \<^verbatim>\<open>get_v4_folders\<close> and \<^verbatim>\<open>get_v4_folders_tasks\<close>, with a project name
  and no empty filter, whenever \<^verbatim>\<open>parent_ids\<close> contains \<^verbatim>\<open>None\<close> or the project's own
  name, the one query that is run binds \<^verbatim>\<open>parentFolderIds\<close> to the parent ids with those
  entries replaced by the single string \<^verbatim>\<open>"root"\<close>; no \<^verbatim>\<open>None\<close> remains in it, and no
  entry equal to the project name remains unless the project is itself named
  \<^verbatim>\<open>"root"\<close>.
\<close>

theorem parent_ids_rewritten_to_root:
  assumes "project_name \<noteq> []"
    and "folder_ids \<noteq> Some {}" "folder_paths \<noteq> Some {}" "folder_names \<noteq> Some {}"
    and "PNone \<in> parent_ids \<or> PStr project_name \<in> parent_ids"
  shows "\<exists>query tasks_query S.
     snd (get_v4_folders D1 project_name folder_ids folder_paths folder_names (Some parent_ids)
            active fs con) = con\<lparr>calls := calls con @ [query]\<rparr> \<and>
     snd (get_v4_folders_tasks D2 project_name folder_ids folder_paths folder_names
            (Some parent_ids) active fs con) = con\<lparr>calls := calls con @ [tasks_query]\<rparr> \<and>
     variable_values query ''parentFolderIds'' = Some (Value_list S) \<and>
     variable_values tasks_query ''parentFolderIds'' = Some (Value_list S) \<and>
     S = insert (PStr ''root'') (parent_ids - {PNone, PStr project_name}) \<and>
     PStr ''root'' \<in> S \<and> PNone \<notin> S \<and>
     (project_name \<noteq> ''root'' \<longrightarrow> PStr project_name \<notin> S)"
proof -
  let ?S = "insert (PStr ''root'') (parent_ids - {PNone, PStr project_name})"
  have ne: "parent_ids \<noteq> {}" using assms(5) by auto
  from folder_filters_parent_ids [OF assms(2-4) ne, of project_name]
  obtain filters where
    f: "folder_filters project_name folder_ids folder_paths folder_names (Some parent_ids) =
          Some filters"
    and p: "filters ''parentFolderIds'' = Some (Value_list ?S)"
    using parent_ids_to_root_eq [OF assms(5)] by auto
  let ?q1 = "set_variable_values filters (graphql_query Folders (select_fields D1 fs active))"
  let ?q2 = "set_variable_values filters (graphql_query FoldersTasks (select_fields D2 fs active))"
  have 1: "snd (get_v4_folders D1 project_name folder_ids folder_paths folder_names
      (Some parent_ids) active fs con) = con\<lparr>calls := calls con @ [?q1]\<rparr>"
    using assms(1) f by (simp add: get_v4_folders_def run_continuous_query_def Let_def)
  have 2: "snd (get_v4_folders_tasks D2 project_name folder_ids folder_paths folder_names
      (Some parent_ids) active fs con) = con\<lparr>calls := calls con @ [?q2]\<rparr>"
    using assms(1) f by (simp add: get_v4_folders_tasks_def run_query_def Let_def)
  have 3: "variable_values ?q1 ''parentFolderIds'' = Some (Value_list ?S)"
    and 4: "variable_values ?q2 ''parentFolderIds'' = Some (Value_list ?S)"
    using p by (simp_all add: set_variable_values_def graphql_query_def map_add_def)
  have 5: "PStr ''root'' \<in> ?S \<and> PNone \<notin> ?S \<and> (project_name \<noteq> ''root'' \<longrightarrow> PStr project_name \<notin> ?S)"
    by auto
  from 1 2 3 4 5 show ?thesis by blast
qed

theorem parent_ids_rewritten_to_root_witness:
  "\<exists>query.
     snd (get_v4_folders {''id''} ''proj1'' None None None (Some {PNone, PStr ''f1''}) None
            (Some {''id'', ''name''}) (fixed_connection [])) =
       (fixed_connection [])\<lparr>calls := calls (fixed_connection []) @ [query]\<rparr> \<and>
     variable_values query ''parentFolderIds'' = Some (Value_list {PStr ''root'', PStr ''f1''})"
proof -
  have a: "''proj1'' \<noteq> []" "(None :: pyval set option) \<noteq> Some {}" by simp_all
  have b: "PNone \<in> {PNone, PStr ''f1''} \<or> PStr ''proj1'' \<in> {PNone, PStr ''f1''}" by simp
  have c: "insert (PStr ''root'') ({PNone, PStr ''f1''} - {PNone, PStr ''proj1''}) =
      {PStr ''root'', PStr ''f1''}" by auto
  from parent_ids_rewritten_to_root [OF a(1) a(2) a(2) a(2) b,
      of "{''id''}" None "Some {''id'', ''name''}" "fixed_connection []" "{''id''}"]
  show ?thesis unfolding c by blast
qed

end
